theory Spec2Isabelle
  imports Main "HOL-Library.Word"
begin

section \<open>Data model of \<open>autoscaling.go\<close>\<close>

text \<open>
  A Go \<open>error\<close> is \<open>None\<close> when \<open>nil\<close>. Errors of the external calls (queue, autoscaling
  client, user handler) are identified by their message; the others are the errors of
  \<open>json.Unmarshal\<close>: a syntax error, a JSON value (named by its kind) that does not fit the
  Go field it is stored in, and a rejected timestamp.
  \<open>time.Time\<close> is a type of the standard library; nothing in this file looks inside a
  value of it, which is represented by the instant it denotes (nanoseconds since the Unix
  epoch). A field of that type holds \<open>None\<close> while it still has the zero value it was
  declared with.
\<close>

datatype error =
    Err string
  | SyntaxError
  | UnmarshalTypeError string string
  | TimeParseError

datatype time_Time = UnixNano int

record Envelope =
  Type :: string
  Subject :: string
  Time :: "time_Time option"
  Message :: string

record Message =
  Time :: "time_Time option"
  GroupName :: string
  InstanceID :: string
  ActionToken :: string
  Transition :: string
  HookName :: string

text \<open>
  The listener and the notice. The queue and the autoscaling client are capabilities whose
  calls appear as events of a run and whose answers are supplied by the environment (below).
  \<open>heartbeatInterval\<close> is a \<open>time.Duration\<close>, a signed 64-bit count of nanoseconds.
\<close>

record AutoscalingListener =
  listenerType :: string
  instanceID :: string
  heartbeatInterval :: "64 word"

definition NewAutoscalingListener :: "string \<Rightarrow> 64 word \<Rightarrow> AutoscalingListener" where
  "NewAutoscalingListener iid hb =
     \<lparr>listenerType = ''autoscaling'', instanceID = iid, heartbeatInterval = hb\<rparr>"

record autoscalingTerminationNotice =
  noticeType :: string
  message :: Message
  heartbeatInterval :: "64 word"

record RecordLifecycleActionHeartbeatInput =
  AutoScalingGroupName :: string
  LifecycleHookName :: string
  InstanceId :: string
  LifecycleActionToken :: string

record CompleteLifecycleActionInput =
  AutoScalingGroupName :: string
  LifecycleHookName :: string
  InstanceId :: string
  LifecycleActionToken :: string
  LifecycleActionResult :: string

datatype level = Debug | Info | Warn | Error

text \<open>
  Everything a run does to the outside is an event, in program order: calls on the queue,
  calls on the autoscaling client, the send on the \<open>notices\<close> channel, the call of the user
  handler, the ticker operations and the log lines. \<open>Tick\<close> is the one event that is not a
  statement of the program: the runtime's ticker sending on \<open>ticker.C\<close>.
\<close>

datatype event =
    Log level string
  | QueueCreate
  | QueueSubscribe
  | QueueGetMessages
  | QueueDeleteMessage string
  | QueueUnsubscribe
  | QueueDelete
  | Send autoscalingTerminationNotice
  | NewTicker "64 word"
  | GoHeartbeat
  | Execute string string
  | TickerStop
  | Tick
  | RecordLifecycleActionHeartbeat RecordLifecycleActionHeartbeatInput
  | CompleteLifecycleAction CompleteLifecycleActionInput

text \<open>How a call ends: it returns its \<open>error\<close> result, or it panics, or (for the polling
  loop only) the environment's script ran out while the loop was still polling.\<close>

datatype exit = Return "error option" | Panic string | Polling

section \<open>\<open>autoscalingTerminationNotice.Handle\<close>\<close>

text \<open>The answers of the two external calls that \<open>Handle\<close> makes on its own goroutine.\<close>

record handle_world =
  execute_result :: "error option"
  complete_result :: "error option"

definition complete_input :: "autoscalingTerminationNotice \<Rightarrow> CompleteLifecycleActionInput" where
  "complete_input n =
     \<lparr>AutoScalingGroupName = GroupName (message n),
      LifecycleHookName = HookName (message n),
      InstanceId = InstanceID (message n),
      LifecycleActionToken = ActionToken (message n),
      LifecycleActionResult = ''CONTINUE''\<rparr>"

text \<open>The first deferred function of \<open>Handle\<close> (lines 155-168).\<close>

definition deferred_complete :: "autoscalingTerminationNotice \<Rightarrow> handle_world \<Rightarrow> event list" where
  "deferred_complete n w =
     [CompleteLifecycleAction (complete_input n),
      (case complete_result w of
         Some e \<Rightarrow> Log Error ''Failed to complete lifecycle action''
       | None \<Rightarrow> Log Info ''Lifecycle action completed successfully'')]"

text \<open>
  \<open>Handle\<close>, lines 154-191. \<open>time.NewTicker\<close> panics on a non-positive duration; at that point
  only the completion is deferred, so it still runs while the panic unwinds. Otherwise the
  ticker is created, \<open>ticker.Stop\<close> is deferred, the heartbeat goroutine is started and the
  handler is executed; the deferred calls run in reverse order of their registration and
  the handler's result is returned.
\<close>

definition Handle :: "autoscalingTerminationNotice \<Rightarrow> handle_world \<Rightarrow> event list \<times> exit" where
  "Handle n w =
     (if sint (autoscalingTerminationNotice.heartbeatInterval n) \<le> 0
      then (deferred_complete n w, Panic ''non-positive interval for NewTicker'')
      else ([NewTicker (autoscalingTerminationNotice.heartbeatInterval n),
             GoHeartbeat,
             Execute (Transition (message n)) (InstanceID (message n))]
            @ [TickerStop]
            @ deferred_complete n w,
            Return (execute_result w)))"

section \<open>\<open>json.Unmarshal\<close> into \<open>Envelope\<close> and \<open>Message\<close>\<close>

text \<open>
  \<open>encoding/json\<close> belongs to the Go standard library. Its behaviour on the two struct types
  of this file is written out here: the syntax check of the whole input, then the stores
  into the fields. A string keeps its raw text (between the quotes) until it is stored.
\<close>

datatype json =
    JNull
  | JBool bool
  | JNumber string
  | JString string
  | JArray "json list"
  | JObject "(string \<times> json) list"

definition isSpace :: "char \<Rightarrow> bool" where
  "isSpace c \<longleftrightarrow> c = CHR '' '' \<or> c = CHR 0x09 \<or> c = CHR 0x0D \<or> c = CHR 0x0A"

definition isDigit :: "char \<Rightarrow> bool" where
  "isDigit c \<longleftrightarrow> (48::nat) \<le> of_char c \<and> of_char c \<le> (57::nat)"

definition hexval :: "char \<Rightarrow> nat option" where
  "hexval c =
     (let n = (of_char c :: nat) in
      if 48 \<le> n \<and> n \<le> 57 then Some (n - 48)
      else if 97 \<le> n \<and> n \<le> 102 then Some (n - 87)
      else if 65 \<le> n \<and> n \<le> 70 then Some (n - 55)
      else None)"

text \<open>\<open>getu4\<close>: the code unit of a \<open>\uXXXX\<close> escape at the head of the text.\<close>

fun getu4 :: "string \<Rightarrow> nat option" where
  "getu4 (b # u # h1 # h2 # h3 # h4 # _) =
     (if b = CHR 0x5C \<and> u = CHR ''u'' then
        (case (hexval h1, hexval h2, hexval h3, hexval h4) of
           (Some a, Some b, Some c, Some d) \<Rightarrow> Some (((a * 16 + b) * 16 + c) * 16 + d)
         | _ \<Rightarrow> None)
      else None)"
| "getu4 _ = None"

text \<open>The scanner inside a string, after the opening quote: the raw text up to the closing
  quote and the input after it. Control characters and unknown escapes are syntax errors.\<close>

fun scan_string :: "string \<Rightarrow> string \<Rightarrow> (string \<times> string) option" where
  "scan_string acc [] = None"
| "scan_string acc (c # cs) =
     (if c = CHR 0x22 then Some (rev acc, cs)
      else if c = CHR 0x5C then
        (case cs of
           [] \<Rightarrow> None
         | e # cs' \<Rightarrow>
             if e \<in> set [CHR 0x22, CHR 0x5C, CHR ''/'', CHR ''b'', CHR ''f'', CHR ''n'', CHR ''r'', CHR ''t'']
             then scan_string (e # c # acc) cs'
             else if e = CHR ''u'' then
               (case cs' of
                  h1 # h2 # h3 # h4 # cs'' \<Rightarrow>
                    if getu4 (c # cs) = None then None
                    else scan_string (h4 # h3 # h2 # h1 # e # c # acc) cs''
                | _ \<Rightarrow> None)
             else None)
      else if (of_char c :: nat) < 32 then None
      else scan_string (c # acc) cs)"

text \<open>The scanner on a number: \<open>-? (0 | [1-9][0-9]*) (. [0-9]+)? ([eE] [+-]? [0-9]+)?\<close>.\<close>

definition scan_exp :: "string \<Rightarrow> string \<Rightarrow> (string \<times> string) option" where
  "scan_exp pre s =
     (case s of
        [] \<Rightarrow> Some (pre, s)
      | e # r \<Rightarrow>
          if e = CHR ''e'' \<or> e = CHR ''E'' then
            (let (sg, r1) = (case r of
                               [] \<Rightarrow> ([], r)
                             | c # r' \<Rightarrow> if c = CHR ''+'' \<or> c = CHR ''-'' then ([c], r') else ([], r));
                 ds = takeWhile isDigit r1
             in if ds = [] then None else Some (pre @ [e] @ sg @ ds, dropWhile isDigit r1))
          else Some (pre, s))"

definition scan_frac :: "string \<Rightarrow> string \<Rightarrow> (string \<times> string) option" where
  "scan_frac pre s =
     (case s of
        [] \<Rightarrow> scan_exp pre s
      | p # r \<Rightarrow>
          if p = CHR ''.'' then
            (let ds = takeWhile isDigit r
             in if ds = [] then None else scan_exp (pre @ [p] @ ds) (dropWhile isDigit r))
          else scan_exp pre s)"

definition scan_number :: "string \<Rightarrow> (string \<times> string) option" where
  "scan_number s =
     (let (sg, s1) = (case s of
                        [] \<Rightarrow> ([], s)
                      | c # r \<Rightarrow> if c = CHR ''-'' then ([c], r) else ([], s))
      in case s1 of
           [] \<Rightarrow> None
         | c # r \<Rightarrow>
             if c = CHR ''0'' then scan_frac (sg @ [c]) r
             else if isDigit c then scan_frac (sg @ c # takeWhile isDigit r) (dropWhile isDigit r)
             else None)"

definition scan_literal :: "string \<Rightarrow> json \<Rightarrow> string \<Rightarrow> (json \<times> string) option" where
  "scan_literal lit v s =
     (if take (length lit) s = lit then Some (v, drop (length lit) s) else None)"

text \<open>
  The grammar of values. The first argument bounds the recursion; a bound above the length
  of the input is never reached (\<open>fuel_enough\<close> below). The second is the number of arrays
  and objects that are open; the scanner refuses more than 10000.
\<close>

fun parse_value :: "nat \<Rightarrow> nat \<Rightarrow> string \<Rightarrow> (json \<times> string) option"
  and parse_elements :: "nat \<Rightarrow> nat \<Rightarrow> json list \<Rightarrow> string \<Rightarrow> (json \<times> string) option"
  and parse_members :: "nat \<Rightarrow> nat \<Rightarrow> (string \<times> json) list \<Rightarrow> string \<Rightarrow> (json \<times> string) option"
where
  "parse_value 0 d s = None"
| "parse_value (Suc f) d s =
     (case dropWhile isSpace s of
        [] \<Rightarrow> None
      | c # r \<Rightarrow>
          if c = CHR ''{'' then
            (if 10000 \<le> d then None
             else case dropWhile isSpace r of
                    [] \<Rightarrow> None
                  | c' # r' \<Rightarrow> if c' = CHR ''}'' then Some (JObject [], r')
                               else parse_members f (Suc d) [] (c' # r'))
          else if c = CHR ''['' then
            (if 10000 \<le> d then None
             else case dropWhile isSpace r of
                    [] \<Rightarrow> None
                  | c' # r' \<Rightarrow> if c' = CHR '']'' then Some (JArray [], r')
                               else parse_elements f (Suc d) [] (c' # r'))
          else if c = CHR 0x22 then
            (case scan_string [] r of
               None \<Rightarrow> None
             | Some (raw, r') \<Rightarrow> Some (JString raw, r'))
          else if c = CHR ''-'' \<or> isDigit c then
            (case scan_number (c # r) of
               None \<Rightarrow> None
             | Some (raw, r') \<Rightarrow> Some (JNumber raw, r'))
          else if c = CHR ''t'' then scan_literal ''true'' (JBool True) (c # r)
          else if c = CHR ''f'' then scan_literal ''false'' (JBool False) (c # r)
          else if c = CHR ''n'' then scan_literal ''null'' JNull (c # r)
          else None)"
| "parse_elements 0 d acc s = None"
| "parse_elements (Suc f) d acc s =
     (case parse_value f d s of
        None \<Rightarrow> None
      | Some (v, r) \<Rightarrow>
          (case dropWhile isSpace r of
             [] \<Rightarrow> None
           | c # r' \<Rightarrow>
               if c = CHR '','' then parse_elements f d (acc @ [v]) r'
               else if c = CHR '']'' then Some (JArray (acc @ [v]), r')
               else None))"
| "parse_members 0 d acc s = None"
| "parse_members (Suc f) d acc s =
     (case dropWhile isSpace s of
        [] \<Rightarrow> None
      | q # r \<Rightarrow>
          if q = CHR 0x22 then
            (case scan_string [] r of
               None \<Rightarrow> None
             | Some (k, r1) \<Rightarrow>
                 (case dropWhile isSpace r1 of
                    [] \<Rightarrow> None
                  | c1 # r2 \<Rightarrow>
                      if c1 = CHR '':'' then
                        (case parse_value f d r2 of
                           None \<Rightarrow> None
                         | Some (v, r3) \<Rightarrow>
                             (case dropWhile isSpace r3 of
                                [] \<Rightarrow> None
                              | c3 # r4 \<Rightarrow>
                                  if c3 = CHR '','' then parse_members f d (acc @ [(k, v)]) r4
                                  else if c3 = CHR ''}'' then Some (JObject (acc @ [(k, v)]), r4)
                                  else None))
                      else None))
          else None)"

text \<open>\<open>checkValid\<close> and the parse: one value, then nothing but white space.\<close>

definition json_parse :: "string \<Rightarrow> json option" where
  "json_parse s =
     (case parse_value (Suc (length s)) 0 s of
        None \<Rightarrow> None
      | Some (v, r) \<Rightarrow> if dropWhile isSpace r = [] then Some v else None)"

subsection \<open>Unquoting\<close>

text \<open>\<open>utf8.EncodeRune\<close>; a surrogate or a value beyond U+10FFFF is written as U+FFFD.\<close>

definition utf8_EncodeRune :: "nat \<Rightarrow> string" where
  "utf8_EncodeRune r =
     (if r < 0x80 then [char_of r]
      else if r < 0x800 then [char_of (0xC0 + r div 64), char_of (0x80 + r mod 64)]
      else if (0xD800 \<le> r \<and> r < 0xE000) \<or> 0x10FFFF < r then [CHR 0xEF, CHR 0xBF, CHR 0xBD]
      else if r < 0x10000 then
        [char_of (0xE0 + r div 4096), char_of (0x80 + (r div 64) mod 64), char_of (0x80 + r mod 64)]
      else
        [char_of (0xF0 + r div 262144), char_of (0x80 + (r div 4096) mod 64),
         char_of (0x80 + (r div 64) mod 64), char_of (0x80 + r mod 64)])"

text \<open>\<open>utf8.DecodeRune\<close>: the rune at the head of the text and its width in bytes; a byte
  that starts no well-formed sequence is (U+FFFD, 1).\<close>

definition cont :: "nat \<Rightarrow> nat \<Rightarrow> char \<Rightarrow> bool" where
  "cont lo hi c \<longleftrightarrow> lo \<le> (of_char c :: nat) \<and> (of_char c :: nat) \<le> hi"

definition low6 :: "char \<Rightarrow> nat" where
  "low6 c = (of_char c :: nat) mod 64"

fun utf8_DecodeRune :: "string \<Rightarrow> nat \<times> nat" where
  "utf8_DecodeRune [] = (0xFFFD, 0)"
| "utf8_DecodeRune (c # cs) =
     (let b = (of_char c :: nat) in
      if b < 0x80 then (b, 1)
      else if 0xC2 \<le> b \<and> b \<le> 0xDF then
        (case cs of
           c1 # _ \<Rightarrow> if cont 0x80 0xBF c1 then ((b mod 32) * 64 + low6 c1, 2) else (0xFFFD, 1)
         | _ \<Rightarrow> (0xFFFD, 1))
      else if 0xE0 \<le> b \<and> b \<le> 0xEF then
        (case cs of
           c1 # c2 # _ \<Rightarrow>
             if cont (if b = 0xE0 then 0xA0 else 0x80) (if b = 0xED then 0x9F else 0xBF) c1
                \<and> cont 0x80 0xBF c2
             then (((b mod 16) * 64 + low6 c1) * 64 + low6 c2, 3) else (0xFFFD, 1)
         | _ \<Rightarrow> (0xFFFD, 1))
      else if 0xF0 \<le> b \<and> b \<le> 0xF4 then
        (case cs of
           c1 # c2 # c3 # _ \<Rightarrow>
             if cont (if b = 0xF0 then 0x90 else 0x80) (if b = 0xF4 then 0x8F else 0xBF) c1
                \<and> cont 0x80 0xBF c2 \<and> cont 0x80 0xBF c3
             then ((((b mod 8) * 64 + low6 c1) * 64 + low6 c2) * 64 + low6 c3, 4) else (0xFFFD, 1)
         | _ \<Rightarrow> (0xFFFD, 1))
      else (0xFFFD, 1))"

definition escaped :: "char \<Rightarrow> char" where
  "escaped e =
     (if e = CHR ''b'' then CHR 0x08
      else if e = CHR ''f'' then CHR 0x0C
      else if e = CHR ''n'' then CHR 0x0A
      else if e = CHR ''r'' then CHR 0x0D
      else if e = CHR ''t'' then CHR 0x09
      else e)"

text \<open>
  One step of \<open>unquoteBytes\<close> on raw text that the scanner has accepted: the bytes written
  and the number of bytes read. A \<open>\u\<close> escape of a high surrogate takes the low surrogate
  that follows it; a surrogate without its partner is written as U+FFFD. Bytes that are
  not well-formed UTF-8 are written as U+FFFD, one byte at a time.
\<close>

definition unquote_at :: "string \<Rightarrow> string \<times> nat" where
  "unquote_at s =
     (case s of
        [] \<Rightarrow> ([], 0)
      | c # cs \<Rightarrow>
          if c = CHR 0x5C then
            (case cs of
               [] \<Rightarrow> ([], 1)
             | e # _ \<Rightarrow>
                 if e = CHR ''u'' then
                   (case getu4 s of
                      None \<Rightarrow> ([], 1)
                    | Some rr \<Rightarrow>
                        if 0xD800 \<le> rr \<and> rr < 0xE000 then
                          (case getu4 (drop 6 s) of
                             None \<Rightarrow> (utf8_EncodeRune 0xFFFD, 6)
                           | Some rr1 \<Rightarrow>
                               if rr < 0xDC00 \<and> 0xDC00 \<le> rr1 \<and> rr1 < 0xE000
                               then (utf8_EncodeRune ((rr - 0xD800) * 1024 + (rr1 - 0xDC00) + 0x10000), 12)
                               else (utf8_EncodeRune 0xFFFD, 6))
                        else (utf8_EncodeRune rr, 6))
                 else ([escaped e], 2))
          else if (of_char c :: nat) < 0x80 then ([c], 1)
          else (case utf8_DecodeRune s of (r, n) \<Rightarrow> (utf8_EncodeRune r, n)))"

text \<open>The loop of \<open>unquoteBytes\<close>; the counter is the number of bytes still to be passed
  over because the step before has read them.\<close>

fun unquote_from :: "nat \<Rightarrow> string \<Rightarrow> string" where
  "unquote_from k [] = []"
| "unquote_from (Suc k) (c # cs) = unquote_from k cs"
| "unquote_from 0 (c # cs) =
     (case unquote_at (c # cs) of (out, n) \<Rightarrow> out @ unquote_from (n - 1) cs)"

definition unquote :: "string \<Rightarrow> string" where
  "unquote raw = unquote_from 0 raw"

subsection \<open>Finding the field of a key\<close>

text \<open>
  A key names a field when the two are equal after folding: ASCII letters to upper case,
  and the two non-ASCII runes that fold to an ASCII letter, U+212A (Kelvin sign) to \<open>K\<close> and
  U+017F (long s) to \<open>S\<close>. The names of the fields of each struct stay distinct after
  folding, so the preference for an exact match never decides.
\<close>

definition toUpper :: "char \<Rightarrow> char" where
  "toUpper c =
     (if (97::nat) \<le> of_char c \<and> of_char c \<le> (122::nat) then char_of ((of_char c :: nat) - 32) else c)"

fun foldName :: "string \<Rightarrow> string" where
  "foldName (c1 # c2 # c3 # cs) =
     (if c1 = CHR 0xE2 \<and> c2 = CHR 0x84 \<and> c3 = CHR 0xAA then CHR ''K'' # foldName cs
      else if c1 = CHR 0xC5 \<and> c2 = CHR 0xBF then CHR ''S'' # foldName (c3 # cs)
      else toUpper c1 # foldName (c2 # c3 # cs))"
| "foldName [c1, c2] =
     (if c1 = CHR 0xC5 \<and> c2 = CHR 0xBF then [CHR ''S''] else toUpper c1 # foldName [c2])"
| "foldName [c1] = [toUpper c1]"
| "foldName [] = []"

definition field_of_key :: "string \<Rightarrow> string" where
  "field_of_key k = foldName (unquote k)"

subsection \<open>Stores into the fields\<close>

text \<open>\<open>Time.UnmarshalJSON\<close> is given the raw text of a string and parses it as a timestamp.
  Which texts it accepts is the standard library's business: the parser is a parameter.\<close>

type_synonym time_parser = "string \<Rightarrow> time_Time option"

definition kind_of :: "json \<Rightarrow> string" where
  "kind_of v =
     (case v of
        JNull \<Rightarrow> ''null''
      | JBool _ \<Rightarrow> ''bool''
      | JNumber _ \<Rightarrow> ''number''
      | JString _ \<Rightarrow> ''string''
      | JArray _ \<Rightarrow> ''array''
      | JObject _ \<Rightarrow> ''object'')"

definition saveError :: "error option \<Rightarrow> error \<Rightarrow> error option" where
  "saveError saved e = (case saved of None \<Rightarrow> Some e | Some _ \<Rightarrow> saved)"

text \<open>A store into a \<open>string\<close> field: a JSON string is unquoted and stored, \<open>null\<close> leaves
  the field alone, any other value is skipped and the first such mismatch is remembered.\<close>

definition store_string :: "string \<Rightarrow> json \<Rightarrow> string \<Rightarrow> error option \<Rightarrow> string \<times> error option" where
  "store_string field v cur saved =
     (case v of
        JString raw \<Rightarrow> (unquote raw, saved)
      | JNull \<Rightarrow> (cur, saved)
      | _ \<Rightarrow> (cur, saveError saved (UnmarshalTypeError (kind_of v) field)))"

text \<open>A store into a \<open>time.Time\<close> field goes through \<open>Time.UnmarshalJSON\<close>, whose error ends
  the decoding at once.\<close>

definition store_time :: "time_parser \<Rightarrow> json \<Rightarrow> time_Time option \<Rightarrow> error + time_Time option" where
  "store_time tp v cur =
     (case v of
        JNull \<Rightarrow> Inr cur
      | JString raw \<Rightarrow> (case tp raw of None \<Rightarrow> Inl TimeParseError | Some t \<Rightarrow> Inr (Some t))
      | _ \<Rightarrow> Inl TimeParseError)"

fun object_Envelope ::
  "time_parser \<Rightarrow> (string \<times> json) list \<Rightarrow> Envelope \<Rightarrow> error option \<Rightarrow> error + Envelope \<times> error option"
where
  "object_Envelope tp [] env saved = Inr (env, saved)"
| "object_Envelope tp ((k, v) # kvs) env saved =
     (let f = field_of_key k in
      if f = ''TYPE'' then
        (case store_string ''Envelope.Type'' v (Type env) saved of
           (x, saved') \<Rightarrow> object_Envelope tp kvs (env\<lparr>Type := x\<rparr>) saved')
      else if f = ''SUBJECT'' then
        (case store_string ''Envelope.Subject'' v (Subject env) saved of
           (x, saved') \<Rightarrow> object_Envelope tp kvs (env\<lparr>Subject := x\<rparr>) saved')
      else if f = ''TIME'' then
        (case store_time tp v (Envelope.Time env) of
           Inl e \<Rightarrow> Inl e
         | Inr t \<Rightarrow> object_Envelope tp kvs (env\<lparr>Envelope.Time := t\<rparr>) saved)
      else if f = ''MESSAGE'' then
        (case store_string ''Envelope.Message'' v (Message env) saved of
           (x, saved') \<Rightarrow> object_Envelope tp kvs (env\<lparr>Message := x\<rparr>) saved')
      else object_Envelope tp kvs env saved)"

fun object_Message ::
  "time_parser \<Rightarrow> (string \<times> json) list \<Rightarrow> Message \<Rightarrow> error option \<Rightarrow> error + Message \<times> error option"
where
  "object_Message tp [] msg saved = Inr (msg, saved)"
| "object_Message tp ((k, v) # kvs) msg saved =
     (let f = field_of_key k in
      if f = ''TIME'' then
        (case store_time tp v (Message.Time msg) of
           Inl e \<Rightarrow> Inl e
         | Inr t \<Rightarrow> object_Message tp kvs (msg\<lparr>Message.Time := t\<rparr>) saved)
      else if f = ''AUTOSCALINGGROUPNAME'' then
        (case store_string ''Message.AutoScalingGroupName'' v (GroupName msg) saved of
           (x, saved') \<Rightarrow> object_Message tp kvs (msg\<lparr>GroupName := x\<rparr>) saved')
      else if f = ''EC2INSTANCEID'' then
        (case store_string ''Message.EC2InstanceId'' v (InstanceID msg) saved of
           (x, saved') \<Rightarrow> object_Message tp kvs (msg\<lparr>InstanceID := x\<rparr>) saved')
      else if f = ''LIFECYCLEACTIONTOKEN'' then
        (case store_string ''Message.LifecycleActionToken'' v (ActionToken msg) saved of
           (x, saved') \<Rightarrow> object_Message tp kvs (msg\<lparr>ActionToken := x\<rparr>) saved')
      else if f = ''LIFECYCLETRANSITION'' then
        (case store_string ''Message.LifecycleTransition'' v (Transition msg) saved of
           (x, saved') \<Rightarrow> object_Message tp kvs (msg\<lparr>Transition := x\<rparr>) saved')
      else if f = ''LIFECYCLEHOOKNAME'' then
        (case store_string ''Message.LifecycleHookName'' v (HookName msg) saved of
           (x, saved') \<Rightarrow> object_Message tp kvs (msg\<lparr>HookName := x\<rparr>) saved')
      else object_Message tp kvs msg saved)"

text \<open>The zero values that \<open>var env Envelope\<close> and \<open>var msg Message\<close> declare.\<close>

definition zero_Envelope :: Envelope where
  "zero_Envelope = \<lparr>Type = [], Subject = [], Envelope.Time = None, Message = []\<rparr>"

definition zero_Message :: Message where
  "zero_Message =
     \<lparr>Message.Time = None, GroupName = [], InstanceID = [], ActionToken = [],
      Transition = [], HookName = []\<rparr>"

text \<open>
  \<open>json.Unmarshal(data, &env)\<close> and \<open>json.Unmarshal(data, &msg)\<close>: \<open>Inl\<close> is the non-nil error.
  A top-level \<open>null\<close> stores nothing; any other value that is not an object does not fit
  the struct.
\<close>

definition json_Unmarshal_Envelope :: "time_parser \<Rightarrow> string \<Rightarrow> error + Envelope" where
  "json_Unmarshal_Envelope tp data =
     (case json_parse data of
        None \<Rightarrow> Inl SyntaxError
      | Some JNull \<Rightarrow> Inr zero_Envelope
      | Some (JObject kvs) \<Rightarrow>
          (case object_Envelope tp kvs zero_Envelope None of
             Inl e \<Rightarrow> Inl e
           | Inr (env, None) \<Rightarrow> Inr env
           | Inr (env, Some e) \<Rightarrow> Inl e)
      | Some v \<Rightarrow> Inl (UnmarshalTypeError (kind_of v) ''Envelope''))"

definition json_Unmarshal_Message :: "time_parser \<Rightarrow> string \<Rightarrow> error + Message" where
  "json_Unmarshal_Message tp data =
     (case json_parse data of
        None \<Rightarrow> Inl SyntaxError
      | Some JNull \<Rightarrow> Inr zero_Message
      | Some (JObject kvs) \<Rightarrow>
          (case object_Message tp kvs zero_Message None of
             Inl e \<Rightarrow> Inl e
           | Inr (msg, None) \<Rightarrow> Inr msg
           | Inr (msg, Some e) \<Rightarrow> Inl e)
      | Some v \<Rightarrow> Inl (UnmarshalTypeError (kind_of v) ''Message''))"

section \<open>\<open>AutoscalingListener.Start\<close>\<close>

text \<open>
  What the environment supplies to a run of \<open>Start\<close>. The four set-up and tear-down calls
  on the queue each answer with an error or \<open>nil\<close>. The loop is driven by a script with one
  entry for each time the \<open>select\<close> statement is reached: either the context is done, or it
  is not and \<open>GetMessages\<close> answers with a batch and an error. A delivered item is a pointer
  to an \<open>sqs.Message\<close> (\<open>None\<close> is the nil pointer), whose two fields are pointers to strings,
  together with the answer that \<open>DeleteMessage\<close> gives for it.
\<close>

record sqs_Message =
  ReceiptHandle :: "string option"
  Body :: "string option"

type_synonym delivery = "sqs_Message option \<times> error option"

datatype iteration = CtxDone | Poll "delivery list" "error option"

record queue_world =
  create_result :: "error option"
  subscribe_result :: "error option"
  unsubscribe_result :: "error option"
  delete_result :: "error option"

definition aws_StringValue :: "string option \<Rightarrow> string" where
  "aws_StringValue p = (case p of None \<Rightarrow> [] | Some v \<Rightarrow> v)"

definition Type_of :: "AutoscalingListener \<Rightarrow> string" where
  "Type_of l = listenerType l"

text \<open>How the body of the \<open>range\<close> loop ends for one item: \<open>continue\<close> (or the end of the
  body), \<open>return nil\<close>, or the dereference of a nil pointer.\<close>

datatype flow = Continue | ReturnNil | NilDereference

definition notice_of :: "AutoscalingListener \<Rightarrow> Message \<Rightarrow> autoscalingTerminationNotice" where
  "notice_of l msg =
     \<lparr>noticeType = Type_of l, message = msg,
      heartbeatInterval = AutoscalingListener.heartbeatInterval l\<rparr>"

text \<open>The body of the \<open>range\<close> loop, lines 97-137, for one delivered item. The send on
  \<open>notices\<close> is an event of the run: the consumer of the channel is taken to receive.\<close>

definition process_item ::
  "time_parser \<Rightarrow> AutoscalingListener \<Rightarrow> delivery \<Rightarrow> event list \<times> flow"
where
  "process_item tp l d =
     (case fst d of
        None \<Rightarrow> ([], NilDereference)
      | Some m \<Rightarrow>
          (let deleted =
                 QueueDeleteMessage (aws_StringValue (ReceiptHandle m))
                 # (case snd d of
                      Some e \<Rightarrow> [Log Warn ''Failed to delete message'']
                    | None \<Rightarrow> [])
           in case Body m of
                None \<Rightarrow> (deleted, NilDereference)
              | Some body \<Rightarrow>
                  (case json_Unmarshal_Envelope tp body of
                     Inl e \<Rightarrow> (deleted @ [Log Error ''Failed to unmarshal envelope''], Continue)
                   | Inr env \<Rightarrow>
                       (let received = deleted @ [Log Debug ''Received an SQS message'']
                        in case json_Unmarshal_Message tp (Message env) of
                             Inl e \<Rightarrow>
                               (received @ [Log Error ''Failed to unmarshal autoscaling message''],
                                Continue)
                           | Inr msg \<Rightarrow>
                               if InstanceID msg \<noteq> instanceID l then
                                 (received
                                  @ [Log Debug ''Skipping autoscaling event, doesn't match instance id''],
                                  Continue)
                               else if Transition msg \<noteq> ''autoscaling:EC2_INSTANCE_TERMINATING'' then
                                 (received
                                  @ [Log Debug ''Skipping autoscaling event, not a termination notice''],
                                  Continue)
                               else (received @ [Send (notice_of l msg)], ReturnNil)))))"

text \<open>The \<open>range\<close> loop over one batch, lines 96-138.\<close>

fun range_messages ::
  "time_parser \<Rightarrow> AutoscalingListener \<Rightarrow> delivery list \<Rightarrow> event list \<times> flow"
where
  "range_messages tp l [] = ([], Continue)"
| "range_messages tp l (d # ds) =
     (case process_item tp l d of
        (evs, Continue) \<Rightarrow> (case range_messages tp l ds of (evs', fl) \<Rightarrow> (evs @ evs', fl))
      | (evs, fl) \<Rightarrow> (evs, fl))"

text \<open>
  The \<open>for\<close>/\<open>select\<close> loop, lines 86-140. It has no exit but the two \<open>return nil\<close> (and a
  panic): while the script lasts the loop runs, and a script that ends with the loop still
  polling gives \<open>Polling\<close>.
\<close>

fun poll_loop ::
  "time_parser \<Rightarrow> AutoscalingListener \<Rightarrow> iteration list \<Rightarrow> event list \<times> exit"
where
  "poll_loop tp l [] = ([], Polling)"
| "poll_loop tp l (CtxDone # script) = ([], Return None)"
| "poll_loop tp l (Poll batch err # script) =
     (let polled =
            [Log Debug ''Polling sqs for messages'', QueueGetMessages]
            @ (case err of
                 Some e \<Rightarrow> [Log Warn ''Failed to get messages from SQS'']
               | None \<Rightarrow> [])
      in case range_messages tp l batch of
           (evs, Continue) \<Rightarrow>
             (case poll_loop tp l script of (evs', ex) \<Rightarrow> (polled @ evs @ evs', ex))
         | (evs, ReturnNil) \<Rightarrow> (polled @ evs, Return None)
         | (evs, NilDereference) \<Rightarrow>
             (polled @ evs, Panic ''invalid memory address or nil pointer dereference''))"

text \<open>The two deferred functions of \<open>Start\<close>, lines 68-73 and 79-84.\<close>

definition deferred_delete :: "queue_world \<Rightarrow> event list" where
  "deferred_delete w =
     [Log Debug ''Deleting sqs queue'', QueueDelete]
     @ (case delete_result w of
          Some e \<Rightarrow> [Log Error ''Failed to delete queue'']
        | None \<Rightarrow> [])"

definition deferred_unsubscribe :: "queue_world \<Rightarrow> event list" where
  "deferred_unsubscribe w =
     [Log Debug ''Deleting sns subscription'', QueueUnsubscribe]
     @ (case unsubscribe_result w of
          Some e \<Rightarrow> [Log Error ''Failed to unsubscribe from sns topic'']
        | None \<Rightarrow> [])"

text \<open>
  \<open>Start\<close>, lines 63-141. The deferred functions run when the function returns or panics,
  the one registered last first; they have not run while the loop is still polling.
\<close>

definition creating :: "event list" where
  "creating = [Log Debug ''Creating sqs queue'', QueueCreate]"

definition subscribing :: "event list" where
  "subscribing = [Log Debug ''Subscribing queue to sns topic'', QueueSubscribe]"

definition Start ::
  "time_parser \<Rightarrow> AutoscalingListener \<Rightarrow> queue_world \<Rightarrow> iteration list \<Rightarrow> event list \<times> exit"
where
  "Start tp l w script =
     (case create_result w of
        Some e \<Rightarrow> (creating, Return (Some e))
      | None \<Rightarrow>
          (case subscribe_result w of
             Some e \<Rightarrow> (creating @ subscribing @ deferred_delete w, Return (Some e))
           | None \<Rightarrow>
               (case poll_loop tp l script of
                  (evs, Polling) \<Rightarrow> (creating @ subscribing @ evs, Polling)
                | (evs, ex) \<Rightarrow>
                    (creating @ subscribing @ evs @ deferred_unsubscribe w @ deferred_delete w,
                     ex))))"

section \<open>Reading a run\<close>

fun is_complete :: "event \<Rightarrow> bool" where
  "is_complete (CompleteLifecycleAction _) = True"
| "is_complete _ = False"

fun is_send :: "event \<Rightarrow> bool" where
  "is_send (Send _) = True"
| "is_send _ = False"

fun is_teardown :: "event \<Rightarrow> bool" where
  "is_teardown QueueUnsubscribe = True"
| "is_teardown QueueDelete = True"
| "is_teardown _ = False"

text \<open>The events that the polling loop can produce.\<close>

fun loop_event :: "event \<Rightarrow> bool" where
  "loop_event (Log _ _) = True"
| "loop_event QueueGetMessages = True"
| "loop_event (QueueDeleteMessage _) = True"
| "loop_event (Send _) = True"
| "loop_event _ = False"

section \<open>The heartbeat goroutine beside \<open>Handle\<close>\<close>









section \<open>The scenario of the specification\<close>

text \<open>The inner message of the scenario, and the raw item that carries it: inside the
  JSON string of the envelope every quote of the inner text has a backslash before it.\<close>

definition backslashed :: "string \<Rightarrow> string" where
  "backslashed s = concat (map (\<lambda>c. if c = CHR 0x22 then [CHR 0x5C, c] else [c]) s)"

definition scenario_message :: string where
  "scenario_message =
     ''{\"EC2InstanceId\":\"i-1\",\"LifecycleTransition\":\"autoscaling:EC2_INSTANCE_TERMINATING\",\"AutoScalingGroupName\":\"g\",\"LifecycleActionToken\":\"t\",\"LifecycleHookName\":\"h\"}''"

definition scenario_item :: string where
  "scenario_item =
     ''{\"Type\":\"Notification\",\"Subject\":\"x\",\"Message\":\"''
     @ backslashed scenario_message @ ''\"}''"

text \<open>The same inner message in envelopes whose \<open>Type\<close> is another string, is missing, or
  is a number.\<close>

definition other_type_item :: string where
  "other_type_item =
     ''{\"Type\":\"SubscriptionConfirmation\",\"Message\":\"''
     @ backslashed scenario_message @ ''\"}''"

definition no_type_item :: string where
  "no_type_item = ''{\"Message\":\"'' @ backslashed scenario_message @ ''\"}''"

definition numeric_type_item :: string where
  "numeric_type_item =
     ''{\"Type\":5,\"Message\":\"'' @ backslashed scenario_message @ ''\"}''"

definition delivered :: "string \<Rightarrow> delivery" where
  "delivered body = (Some \<lparr>ReceiptHandle = Some ''receipt'', Body = Some body\<rparr>, None)"

text \<open>A time parser that accepts no text.\<close>

definition no_time :: time_parser where
  "no_time raw = None"

definition decoded_scenario :: Message where
  "decoded_scenario =
     \<lparr>Message.Time = None, GroupName = ''g'', InstanceID = ''i-1'', ActionToken = ''t'',
      Transition = ''autoscaling:EC2_INSTANCE_TERMINATING'', HookName = ''h''\<rparr>"

definition all_well :: queue_world where
  "all_well =
     \<lparr>create_result = None, subscribe_result = None, unsubscribe_result = None,
      delete_result = None\<rparr>"

section \<open>Notions used in the proofs\<close>

text \<open>A successful parse with the bound \<open>F\<close> consumes input, and succeeds with the same
  result under every bound greater than the number of characters it consumes.\<close>

definition stable_value :: "nat \<Rightarrow> bool" where
  "stable_value F \<longleftrightarrow> (\<forall>d s v r. parse_value F d s = Some (v, r) \<longrightarrow>
      length r < length s
      \<and> (\<forall>f. length s - length r < f \<longrightarrow> parse_value f d s = Some (v, r)))"

definition stable_elements :: "nat \<Rightarrow> bool" where
  "stable_elements F \<longleftrightarrow> (\<forall>d acc s v r. parse_elements F d acc s = Some (v, r) \<longrightarrow>
      length r < length s
      \<and> (\<forall>f. length s - length r < f \<longrightarrow> parse_elements f d acc s = Some (v, r)))"

definition stable_members :: "nat \<Rightarrow> bool" where
  "stable_members F \<longleftrightarrow> (\<forall>d acc s v r. parse_members F d acc s = Some (v, r) \<longrightarrow>
      length r < length s
      \<and> (\<forall>f. length s - length r < f \<longrightarrow> parse_members f d acc s = Some (v, r)))"

text \<open>A delivery on which the loop body dereferences a nil pointer: the item itself, or
  its \<open>Body\<close>.\<close>

definition nil_delivery :: "delivery \<Rightarrow> bool" where
  "nil_delivery d \<longleftrightarrow> (case fst d of None \<Rightarrow> True | Some m \<Rightarrow> Body m = None)"


definition completed :: "event list \<Rightarrow> bool" where
  "completed h \<longleftrightarrow> (\<exists>c. CompleteLifecycleAction c \<in> set h)"



section \<open>The recursion bound of the parser\<close>

lemma dropWhile_le: "length (dropWhile P s) \<le> length s"
  by (induction s) auto

lemma scan_string_shorter:
  "scan_string acc s = Some (raw, r) \<Longrightarrow> length r < length s"
proof (induction acc s rule: scan_string.induct)
  case (1 acc)
  then show ?case by simp
next
  case (2 acc c cs)
  then show ?case
    by (auto split: if_splits list.splits simp: less_Suc_eq)
qed

lemma scan_exp_shorter: "scan_exp pre s = Some (raw, r) \<Longrightarrow> length r \<le> length s"
  by (auto simp: scan_exp_def Let_def split: list.splits if_splits prod.splits
           intro: le_trans [OF dropWhile_le] le_SucI)

lemma scan_frac_shorter: "scan_frac pre s = Some (raw, r) \<Longrightarrow> length r \<le> length s"
  by (auto simp: scan_frac_def Let_def split: list.splits if_splits
           dest!: scan_exp_shorter intro: le_trans [OF _ dropWhile_le] le_SucI)

lemma scan_number_shorter: "scan_number s = Some (raw, r) \<Longrightarrow> length r < length s"
  by (auto simp: scan_number_def Let_def split: list.splits if_splits prod.splits
           dest!: scan_frac_shorter intro: le_trans [OF _ dropWhile_le] le_SucI le_imp_less_Suc)


lemma scan_literal_shorter:
  "scan_literal lit v s = Some (x, r) \<Longrightarrow> lit \<noteq> [] \<Longrightarrow> length r < length s"
  by (cases s) (auto simp: scan_literal_def split: if_splits)

lemma dropWhile_Cons_shorter: "dropWhile P s = c # r \<Longrightarrow> length r < length s"
  using dropWhile_le [of P s] by simp

lemma stable_elements_step:
  assumes V: "stable_value F" and E: "stable_elements F"
  shows "stable_elements (Suc F)"
  unfolding stable_elements_def
proof (intro allI impI)
  fix d acc s v r
  assume p: "parse_elements (Suc F) d acc s = Some (v, r)"
  then obtain v1 r1 where pv: "parse_value F d s = Some (v1, r1)"
    by (auto split: option.splits)
  with p obtain c r' where dw: "dropWhile isSpace r1 = c # r'"
    by (auto split: list.splits)
  from V pv have l1: "length r1 < length s"
    and s1: "\<And>f. length s - length r1 < f \<Longrightarrow> parse_value f d s = Some (v1, r1)"
    unfolding stable_value_def by blast+
  from dw have l2: "length r' < length r1" by (rule dropWhile_Cons_shorter)
  from p pv dw consider
      (comma) "c = CHR '',''" "parse_elements F d (acc @ [v1]) r' = Some (v, r)"
    | (close) "c = CHR '']''" "v = JArray (acc @ [v1])" "r = r'"
    by (auto split: if_splits)
  then show "length r < length s
      \<and> (\<forall>f. length s - length r < f \<longrightarrow> parse_elements f d acc s = Some (v, r))"
  proof cases
    case comma
    from E comma(2) have l3: "length r < length r'"
      and s3: "\<And>f. length r' - length r < f \<Longrightarrow> parse_elements f d (acc @ [v1]) r' = Some (v, r)"
      unfolding stable_elements_def by blast+
    have "parse_elements f d acc s = Some (v, r)" if f: "length s - length r < f" for f
    proof -
      from f obtain f' where f': "f = Suc f'" by (cases f) auto
      with f l1 l2 l3 have "length s - length r1 < f'" "length r' - length r < f'" by arith+
      with s1 s3 have "parse_value f' d s = Some (v1, r1)"
        "parse_elements f' d (acc @ [v1]) r' = Some (v, r)" by blast+
      with f' dw comma(1) show ?thesis by simp
    qed
    with l1 l2 l3 show ?thesis by simp
  next
    case close
    have "parse_elements f d acc s = Some (v, r)" if f: "length s - length r < f" for f
    proof -
      from f obtain f' where f': "f = Suc f'" by (cases f) auto
      from f l1 l2 have "length s - length r1 < f'" unfolding close(3) f' by arith
      with s1 have "parse_value f' d s = Some (v1, r1)" by blast
      with f' dw close show ?thesis by simp
    qed
    with l1 l2 close(3) show ?thesis by simp
  qed
qed

lemma stable_members_step:
  assumes V: "stable_value F" and M: "stable_members F"
  shows "stable_members (Suc F)"
  unfolding stable_members_def
proof (intro allI impI)
  fix d acc s v r
  assume p: "parse_members (Suc F) d acc s = Some (v, r)"
  then obtain q r0 where d0: "dropWhile isSpace s = q # r0"
    by (auto split: list.splits)
  with p have q: "q = CHR 0x22" by (auto split: if_splits)
  with p d0 obtain k r1 where ss: "scan_string [] r0 = Some (k, r1)"
    by (auto split: option.splits)
  with p d0 q obtain c1 r2 where d1: "dropWhile isSpace r1 = c1 # r2"
    by (auto split: list.splits)
  with p d0 q ss have c1: "c1 = CHR '':''" by (auto split: if_splits)
  with p d0 q ss d1 obtain v1 r3 where pv: "parse_value F d r2 = Some (v1, r3)"
    by (auto split: option.splits)
  with p d0 q ss d1 c1 obtain c3 r4 where d3: "dropWhile isSpace r3 = c3 # r4"
    by (auto split: list.splits)
  from d0 have l0: "length r0 < length s" by (rule dropWhile_Cons_shorter)
  from ss have l1: "length r1 < length r0" by (rule scan_string_shorter)
  from d1 have l2: "length r2 < length r1" by (rule dropWhile_Cons_shorter)
  from V pv have l3: "length r3 < length r2"
    and s3: "\<And>f. length r2 - length r3 < f \<Longrightarrow> parse_value f d r2 = Some (v1, r3)"
    unfolding stable_value_def by blast+
  from d3 have l4: "length r4 < length r3" by (rule dropWhile_Cons_shorter)
  from p d0 q ss d1 c1 pv d3 consider
      (comma) "c3 = CHR '',''" "parse_members F d (acc @ [(k, v1)]) r4 = Some (v, r)"
    | (close) "c3 = CHR ''}''" "v = JObject (acc @ [(k, v1)])" "r = r4"
    by (auto split: if_splits)
  then show "length r < length s
      \<and> (\<forall>f. length s - length r < f \<longrightarrow> parse_members f d acc s = Some (v, r))"
  proof cases
    case comma
    from M comma(2) have l5: "length r < length r4"
      and s5: "\<And>f. length r4 - length r < f \<Longrightarrow> parse_members f d (acc @ [(k, v1)]) r4 = Some (v, r)"
      unfolding stable_members_def by blast+
    have "parse_members f d acc s = Some (v, r)" if f: "length s - length r < f" for f
    proof -
      from f obtain f' where f': "f = Suc f'" by (cases f) auto
      with f l0 l1 l2 l3 l4 l5 have "length r2 - length r3 < f'" "length r4 - length r < f'"
        by arith+
      with s3 s5 have "parse_value f' d r2 = Some (v1, r3)"
        "parse_members f' d (acc @ [(k, v1)]) r4 = Some (v, r)" by blast+
      with f' d0 q ss d1 c1 d3 comma(1) show ?thesis by simp
    qed
    with l0 l1 l2 l3 l4 l5 show ?thesis by simp
  next
    case close
    have "parse_members f d acc s = Some (v, r)" if f: "length s - length r < f" for f
    proof -
      from f obtain f' where f': "f = Suc f'" by (cases f) auto
      from f l0 l1 l2 l3 l4 have "length r2 - length r3 < f'" unfolding close(3) f' by arith
      with s3 have "parse_value f' d r2 = Some (v1, r3)" by blast
      with f' d0 q ss d1 c1 d3 close show ?thesis by simp
    qed
    with l0 l1 l2 l3 l4 close(3) show ?thesis by simp
  qed
qed


lemma stable_value_step:
  assumes E: "stable_elements F" and M: "stable_members F"
  shows "stable_value (Suc F)"
  unfolding stable_value_def
proof (intro allI impI)
  fix d s v r
  assume p: "parse_value (Suc F) d s = Some (v, r)"
  then obtain c r0 where d0: "dropWhile isSpace s = c # r0"
    by (auto split: list.splits)
  from d0 have l0: "length r0 < length s" by (rule dropWhile_Cons_shorter)
  consider (obj) "c = CHR ''{''" | (arr) "c \<noteq> CHR ''{''" "c = CHR ''[''"
    | (leaf) "c \<noteq> CHR ''{''" "c \<noteq> CHR ''[''" by blast
  then show "length r < length s
      \<and> (\<forall>f. length s - length r < f \<longrightarrow> parse_value f d s = Some (v, r))"
  proof cases
    case obj
    with p d0 have dd: "\<not> 10000 \<le> d" by (auto split: if_splits)
    with p d0 obj obtain c' r' where d1: "dropWhile isSpace r0 = c' # r'"
      by (auto split: list.splits)
    from d1 have l1: "length r' < length r0" by (rule dropWhile_Cons_shorter)
    show ?thesis
    proof (cases "c' = CHR ''}''")
      case True
      with p d0 obj dd d1 have vr: "v = JObject []" "r = r'" by auto
      have "parse_value f d s = Some (v, r)" if f: "length s - length r < f" for f
      proof -
        from f obtain f' where f': "f = Suc f'" by (cases f) auto
        with d0 obj dd d1 True vr show ?thesis by simp
      qed
      with l0 l1 vr show ?thesis by simp
    next
      case False
      with p d0 obj dd d1 have pm: "parse_members F (Suc d) [] (c' # r') = Some (v, r)" by simp
      from M pm have l2: "length r < length (c' # r')"
        and s2: "\<And>f. length (c' # r') - length r < f \<Longrightarrow> parse_members f (Suc d) [] (c' # r') = Some (v, r)"
        unfolding stable_members_def by blast+
      have "parse_value f d s = Some (v, r)" if f: "length s - length r < f" for f
      proof -
        from f obtain f' where f': "f = Suc f'" by (cases f) auto
        from f l0 l1 l2 have "length (c' # r') - length r < f'" unfolding f' by (simp; arith?)
        with s2 have "parse_members f' (Suc d) [] (c' # r') = Some (v, r)" by blast
        with f' d0 obj dd d1 False show ?thesis by simp
      qed
      moreover from l0 l1 l2 have "length r < length s" by simp
      ultimately show ?thesis by simp
    qed
  next
    case arr
    with p d0 have dd: "\<not> 10000 \<le> d" by (auto split: if_splits)
    with p d0 arr obtain c' r' where d1: "dropWhile isSpace r0 = c' # r'"
      by (auto split: list.splits)
    from d1 have l1: "length r' < length r0" by (rule dropWhile_Cons_shorter)
    show ?thesis
    proof (cases "c' = CHR '']''")
      case True
      with p d0 arr dd d1 have vr: "v = JArray []" "r = r'" by auto
      have "parse_value f d s = Some (v, r)" if f: "length s - length r < f" for f
      proof -
        from f obtain f' where f': "f = Suc f'" by (cases f) auto
        with d0 arr dd d1 True vr show ?thesis by simp
      qed
      with l0 l1 vr show ?thesis by simp
    next
      case False
      with p d0 arr dd d1 have pm: "parse_elements F (Suc d) [] (c' # r') = Some (v, r)" by simp
      from E pm have l2: "length r < length (c' # r')"
        and s2: "\<And>f. length (c' # r') - length r < f \<Longrightarrow> parse_elements f (Suc d) [] (c' # r') = Some (v, r)"
        unfolding stable_elements_def by blast+
      have "parse_value f d s = Some (v, r)" if f: "length s - length r < f" for f
      proof -
        from f obtain f' where f': "f = Suc f'" by (cases f) auto
        from f l0 l1 l2 have "length (c' # r') - length r < f'" unfolding f' by (simp; arith?)
        with s2 have "parse_elements f' (Suc d) [] (c' # r') = Some (v, r)" by blast
        with f' d0 arr dd d1 False show ?thesis by simp
      qed
      moreover from l0 l1 l2 have "length r < length s" by simp
      ultimately show ?thesis by simp
    qed
  next
    case leaf
    have same: "parse_value (Suc f') d s = parse_value (Suc F) d s" for f'
      using d0 leaf by simp
    have "length r \<le> length (c # r0)"
      using p d0 leaf
      by (auto split: if_splits option.splits
               dest!: scan_string_shorter scan_number_shorter
               dest: scan_literal_shorter)
    moreover have "length r \<noteq> length (c # r0)"
      using p d0 leaf
      by (auto split: if_splits option.splits
               dest!: scan_string_shorter scan_number_shorter
               dest: scan_literal_shorter)
    ultimately have lr: "length r < length s" using l0 by simp
    have "parse_value f d s = Some (v, r)" if f: "length s - length r < f" for f
    proof -
      from f obtain f' where f': "f = Suc f'" by (cases f) auto
      with same p show ?thesis by simp
    qed
    with lr show ?thesis by simp
  qed
qed

lemma stable_all: "stable_value F \<and> stable_elements F \<and> stable_members F"
proof (induction F)
  case 0
  show ?case by (simp add: stable_value_def stable_elements_def stable_members_def)
next
  case (Suc F)
  then show ?case by (simp add: stable_value_step stable_elements_step stable_members_step)
qed

text \<open>A value that the grammar finds with any bound at all, it finds with the bound that
  \<open>json_parse\<close> uses: \<open>json_parse\<close> fails on syntax errors only.\<close>

lemma fuel_enough:
  assumes "parse_value F d s = Some (v, r)"
  shows "parse_value (Suc (length s)) d s = Some (v, r)"
proof -
  from stable_all [of F] assms
  have st: "\<And>f. length s - length r < f \<Longrightarrow> parse_value f d s = Some (v, r)"
    unfolding stable_value_def by blast
  have "length s - length r < Suc (length s)" by simp
  then show ?thesis by (rule st)
qed

lemma json_parse_complete:
  assumes "parse_value F 0 s = Some (v, r)" and "dropWhile isSpace r = []"
  shows "json_parse s = Some v"
  using fuel_enough [OF assms(1)] assms(2) by (simp add: json_parse_def)

section \<open>The notice handler\<close>

text \<open>
  C1, as the code has it. Every invocation of \<open>Handle\<close> makes the complete-lifecycle-action
  call exactly once, with result \<open>CONTINUE\<close> and the group name, hook name, instance ID and
  action token of the notice, whatever the handler and the completion call answer. When
  the heartbeat interval of the notice is positive, the handler is executed and \<open>Handle\<close>
  returns exactly what it returned (success, failure or cancellation), also when the
  completion call fails. When the interval is not positive, the handler is not executed
  and \<open>Handle\<close> panics.
\<close>

theorem Handle_completes_once_and_returns_handler_result:
  "filter is_complete (fst (Handle n w)) =
     [CompleteLifecycleAction
        \<lparr>AutoScalingGroupName = GroupName (message n),
         LifecycleHookName = HookName (message n),
         InstanceId = InstanceID (message n),
         LifecycleActionToken = ActionToken (message n),
         LifecycleActionResult = ''CONTINUE''\<rparr>]
   \<and> (0 < sint (autoscalingTerminationNotice.heartbeatInterval n) \<longrightarrow>
        snd (Handle n w) = Return (execute_result w)
        \<and> Execute (Transition (message n)) (InstanceID (message n)) \<in> set (fst (Handle n w)))
   \<and> (sint (autoscalingTerminationNotice.heartbeatInterval n) \<le> 0 \<longrightarrow>
        snd (Handle n w) = Panic ''non-positive interval for NewTicker''
        \<and> (\<forall>t i. Execute t i \<notin> set (fst (Handle n w))))"
  by (simp add: Handle_def deferred_complete_def complete_input_def split: option.split)

text \<open>A handler that fails and a completion call that fails, with a heartbeat every ten
  seconds: the handler's error is what \<open>Handle\<close> returns.\<close>

theorem Handle_returns_handler_error_witness:
  "0 < sint (10000000000 :: 64 word)
   \<and> snd (Handle \<lparr>noticeType = ''autoscaling'',
                   message = \<lparr>Message.Time = None, GroupName = ''g'', InstanceID = ''i-1'',
                              ActionToken = ''t'',
                              Transition = ''autoscaling:EC2_INSTANCE_TERMINATING'',
                              HookName = ''h''\<rparr>,
                   heartbeatInterval = 10000000000\<rparr>
                  \<lparr>execute_result = Some (Err ''exit status 1''),
                   complete_result = Some (Err ''ValidationError'')\<rparr>)
     = Return (Some (Err ''exit status 1''))"
  using Handle_completes_once_and_returns_handler_result
          [of "\<lparr>noticeType = ''autoscaling'',
                message = \<lparr>Message.Time = None, GroupName = ''g'', InstanceID = ''i-1'',
                           ActionToken = ''t'',
                           Transition = ''autoscaling:EC2_INSTANCE_TERMINATING'',
                           HookName = ''h''\<rparr>,
                heartbeatInterval = 10000000000\<rparr>"
              "\<lparr>execute_result = Some (Err ''exit status 1''),
                complete_result = Some (Err ''ValidationError'')\<rparr>"]
  by simp

text \<open>
  With a heartbeat interval of zero \<open>time.NewTicker\<close> panics: the handler is never executed
  and \<open>Handle\<close> does not return, so there is no return value to equal the handler's. The
  completion call is still made, by the deferred function.
\<close>

theorem Handle_zero_interval_panics:
  "snd (Handle \<lparr>noticeType = ''autoscaling'',
                message = \<lparr>Message.Time = None, GroupName = ''g'', InstanceID = ''i-1'',
                           ActionToken = ''t'',
                           Transition = ''autoscaling:EC2_INSTANCE_TERMINATING'',
                           HookName = ''h''\<rparr>,
                heartbeatInterval = 0\<rparr>
               \<lparr>execute_result = None, complete_result = None\<rparr>)
     \<noteq> Return (execute_result \<lparr>execute_result = None, complete_result = None\<rparr>)
   \<and> Handle \<lparr>noticeType = ''autoscaling'',
             message = \<lparr>Message.Time = None, GroupName = ''g'', InstanceID = ''i-1'',
                        ActionToken = ''t'',
                        Transition = ''autoscaling:EC2_INSTANCE_TERMINATING'',
                        HookName = ''h''\<rparr>,
             heartbeatInterval = 0\<rparr>
            \<lparr>execute_result = None, complete_result = None\<rparr>
     = ([CompleteLifecycleAction
           \<lparr>AutoScalingGroupName = ''g'', LifecycleHookName = ''h'', InstanceId = ''i-1'',
            LifecycleActionToken = ''t'', LifecycleActionResult = ''CONTINUE''\<rparr>,
         Log Info ''Lifecycle action completed successfully''],
        Panic ''non-positive interval for NewTicker'')"
  by (simp add: Handle_def deferred_complete_def complete_input_def)

section \<open>Ticks and the completion call\<close>














section \<open>The listener\<close>

text \<open>The raw item of the scenario begins \<open>{"Type":"Notification","Subject":"x","Message":"{\"EC2\<close>.\<close>

lemma scenario_item_begins:
  "take 54 scenario_item =
     ''{\"Type\":\"Notification\",\"Subject\":\"x\",\"Message\":\"{'' @ [CHR 0x5C, CHR 0x22] @ ''EC2''
   \<and> length scenario_item = 232"
  by (simp add: scenario_item_def scenario_message_def backslashed_def)

lemma scenario_item_decodes:
  "json_Unmarshal_Envelope tp scenario_item =
     Inr \<lparr>Type = ''Notification'', Subject = ''x'', Envelope.Time = None,
          Message = scenario_message\<rparr>"
  by code_simp

lemma scenario_message_decodes:
  "json_Unmarshal_Message tp scenario_message = Inr decoded_scenario"
  by code_simp

lemma other_type_item_decodes:
  "json_Unmarshal_Envelope tp other_type_item =
     Inr \<lparr>Type = ''SubscriptionConfirmation'', Subject = [], Envelope.Time = None,
          Message = scenario_message\<rparr>"
  by code_simp

lemma no_type_item_decodes:
  "json_Unmarshal_Envelope tp no_type_item =
     Inr \<lparr>Type = [], Subject = [], Envelope.Time = None, Message = scenario_message\<rparr>"
  by code_simp

lemma numeric_type_item_parses:
  "json_parse numeric_type_item =
     Some (JObject [(''Type'', JNumber ''5''),
                    (''Message'', JString (backslashed scenario_message))])"
  by code_simp

lemma numeric_type_item_fails:
  "json_Unmarshal_Envelope tp numeric_type_item =
     Inl (UnmarshalTypeError ''number'' ''Envelope.Type'')"
  by code_simp

lemma backslashed_unquotes:
  "unquote (backslashed scenario_message) = scenario_message"
  by code_simp

lemma empty_object_decodes:
  "json_Unmarshal_Envelope tp ''{}'' = Inr zero_Envelope"
  by code_simp

lemma empty_text_fails:
  "json_Unmarshal_Message tp [] = Inl SyntaxError"
  by code_simp

lemma plain_text_fails:
  "json_Unmarshal_Envelope tp ''hello'' = Inl SyntaxError"
  by code_simp

lemma process_item_decoded:
  assumes "Body m = Some body" "json_Unmarshal_Envelope tp body = Inr env"
    "json_Unmarshal_Message tp (Message env) = Inr msg"
  shows "process_item tp l (Some m, ack) =
    (if InstanceID msg \<noteq> instanceID l then
       (QueueDeleteMessage (aws_StringValue (ReceiptHandle m))
        # (case ack of Some e \<Rightarrow> [Log Warn ''Failed to delete message''] | None \<Rightarrow> [])
        @ [Log Debug ''Received an SQS message'',
           Log Debug ''Skipping autoscaling event, doesn't match instance id''],
        Continue)
     else if Transition msg \<noteq> ''autoscaling:EC2_INSTANCE_TERMINATING'' then
       (QueueDeleteMessage (aws_StringValue (ReceiptHandle m))
        # (case ack of Some e \<Rightarrow> [Log Warn ''Failed to delete message''] | None \<Rightarrow> [])
        @ [Log Debug ''Received an SQS message'',
           Log Debug ''Skipping autoscaling event, not a termination notice''],
        Continue)
     else
       (QueueDeleteMessage (aws_StringValue (ReceiptHandle m))
        # (case ack of Some e \<Rightarrow> [Log Warn ''Failed to delete message''] | None \<Rightarrow> [])
        @ [Log Debug ''Received an SQS message'', Send (notice_of l msg)],
        ReturnNil))"
  using assms by (simp add: process_item_def Let_def)

lemma process_item_undecodable:
  assumes "Body m = Some body"
    "(\<exists>e. json_Unmarshal_Envelope tp body = Inl e)
     \<or> (\<exists>env e. json_Unmarshal_Envelope tp body = Inr env
                \<and> json_Unmarshal_Message tp (Message env) = Inl e)"
  shows "\<exists>logs. process_item tp l (Some m, ack) =
           (QueueDeleteMessage (aws_StringValue (ReceiptHandle m)) # logs, Continue)
         \<and> (\<forall>x \<in> set logs. \<exists>lv s. x = Log lv s)"
  using assms by (auto simp: process_item_def Let_def split: option.split)

lemma scenario_accepted:
  "process_item tp (NewAutoscalingListener ''i-1'' hb) (delivered scenario_item) =
     ([QueueDeleteMessage ''receipt'', Log Debug ''Received an SQS message'',
       Send (notice_of (NewAutoscalingListener ''i-1'' hb) decoded_scenario)],
      ReturnNil)"
  by (simp add: delivered_def aws_StringValue_def decoded_scenario_def NewAutoscalingListener_def
        process_item_decoded [OF _ scenario_item_decodes, simplified, OF _ scenario_message_decodes])

lemma scenario_skipped:
  "process_item tp (NewAutoscalingListener ''i-2'' hb) (delivered scenario_item) =
     ([QueueDeleteMessage ''receipt'', Log Debug ''Received an SQS message'',
       Log Debug ''Skipping autoscaling event, doesn't match instance id''],
      Continue)"
  by (simp add: delivered_def aws_StringValue_def decoded_scenario_def NewAutoscalingListener_def
        process_item_decoded [OF _ scenario_item_decodes, simplified, OF _ scenario_message_decodes])

lemma empty_object_skipped:
  "process_item tp l (delivered ''{}'') =
     ([QueueDeleteMessage ''receipt'', Log Debug ''Received an SQS message'',
       Log Error ''Failed to unmarshal autoscaling message''],
      Continue)"
  by (simp add: process_item_def delivered_def aws_StringValue_def empty_object_decodes
        zero_Envelope_def empty_text_fails)
lemma process_item_sends:
  "(snd (process_item tp l d) = ReturnNil \<and>
      (\<exists>pre n. fst (process_item tp l d) = pre @ [Send n] \<and> filter is_send pre = []))
   \<or> (snd (process_item tp l d) \<noteq> ReturnNil \<and> filter is_send (fst (process_item tp l d)) = [])"
  by (auto simp: process_item_def Let_def split: option.split sum.split)

lemma range_messages_sends:
  "(snd (range_messages tp l ds) = ReturnNil \<and>
      (\<exists>pre n. fst (range_messages tp l ds) = pre @ [Send n] \<and> filter is_send pre = []))
   \<or> (snd (range_messages tp l ds) \<noteq> ReturnNil \<and> filter is_send (fst (range_messages tp l ds)) = [])"
proof (induction ds)
  case Nil
  then show ?case by simp
next
  case (Cons d ds)
  obtain evs fl where p: "process_item tp l d = (evs, fl)" by (cases "process_item tp l d")
  obtain evs' fl' where r: "range_messages tp l ds = (evs', fl')" by (cases "range_messages tp l ds")
  show ?case
  proof (cases fl)
    case Continue
    with process_item_sends [of tp l d] p have "filter is_send evs = []" by simp
    with Cons.IH p r Continue show ?thesis
      by (auto intro: exI [of _ "evs @ pre" for pre])
  next
    case ReturnNil
    with process_item_sends [of tp l d] p show ?thesis by simp
  next
    case NilDereference
    with process_item_sends [of tp l d] p show ?thesis by simp
  qed
qed

text \<open>The loop ends in one of three ways, and a notice is its last event exactly when it
  returns after a match.\<close>

lemma poll_loop_exit:
  "snd (poll_loop tp l script) = Return None \<or> snd (poll_loop tp l script) = Polling
   \<or> snd (poll_loop tp l script) = Panic ''invalid memory address or nil pointer dereference''"
proof (induction script)
  case Nil
  then show ?case by simp
next
  case (Cons it script)
  show ?case
  proof (cases it)
    case CtxDone
    then show ?thesis by simp
  next
    case (Poll batch err)
    obtain evs fl where r: "range_messages tp l batch = (evs, fl)" by (cases "range_messages tp l batch")
    obtain evs' ex where q: "poll_loop tp l script = (evs', ex)" by (cases "poll_loop tp l script")
    from Cons.IH Poll r q show ?thesis by (cases fl) auto
  qed
qed

lemma poll_loop_sends:
  "(snd (poll_loop tp l script) = Return None \<and>
      (\<exists>pre n. fst (poll_loop tp l script) = pre @ [Send n] \<and> filter is_send pre = []))
   \<or> filter is_send (fst (poll_loop tp l script)) = []"
proof (induction script)
  case Nil
  then show ?case by simp
next
  case (Cons it script)
  show ?case
  proof (cases it)
    case CtxDone
    then show ?thesis by simp
  next
    case (Poll batch err)
    obtain evs fl where r: "range_messages tp l batch = (evs, fl)" by (cases "range_messages tp l batch")
    obtain evs' ex where q: "poll_loop tp l script = (evs', ex)" by (cases "poll_loop tp l script")
    let ?polled = "[Log Debug ''Polling sqs for messages'', QueueGetMessages]
            @ (case err of Some e \<Rightarrow> [Log Warn ''Failed to get messages from SQS''] | None \<Rightarrow> [])"
    have polled: "filter is_send ?polled = []" by (simp split: option.split)
    show ?thesis
    proof (cases fl)
      case Continue
      with range_messages_sends [of tp l batch] r have "filter is_send evs = []" by simp
      with Cons.IH Poll r q Continue polled show ?thesis
        by (auto simp del: append.simps intro: exI [of _ "?polled @ evs @ pre" for pre])
    next
      case ReturnNil
      with range_messages_sends [of tp l batch] r
      obtain pre n where "evs = pre @ [Send n]" "filter is_send pre = []" by auto
      with Poll r ReturnNil polled show ?thesis
        by (auto simp del: append.simps intro: exI [of _ "?polled @ pre"])
    next
      case NilDereference
      with range_messages_sends [of tp l batch] r have "filter is_send evs = []" by simp
      with Poll r NilDereference polled show ?thesis by (auto split: option.split)
    qed
  qed
qed


lemma single_send_split:
  "filter is_send A = [] \<Longrightarrow> filter is_send B = [] \<Longrightarrow> A @ Send n # B = pre @ Send n' # post
   \<Longrightarrow> pre = A \<and> n' = n \<and> post = B"
proof (induction A arbitrary: pre)
  case Nil
  then show ?case by (cases pre) auto
next
  case (Cons a A)
  then show ?case by (cases pre) (auto split: if_splits)
qed

lemma deferred_no_send:
  "filter is_send (deferred_unsubscribe w @ deferred_delete w) = []"
  by (simp add: deferred_unsubscribe_def deferred_delete_def split: option.split)

lemma deferred_delete_no_send: "filter is_send (deferred_delete w) = []"
  by (simp add: deferred_delete_def split: option.split)


lemma setup_no_send: "filter is_send (creating @ subscribing) = []"
  by (simp add: creating_def subscribing_def)

lemma Start_running:
  assumes "create_result w = None" "subscribe_result w = None"
  shows "Start tp l w script =
           (if snd (poll_loop tp l script) = Polling
            then (creating @ subscribing @ fst (poll_loop tp l script), Polling)
            else (creating @ subscribing @ fst (poll_loop tp l script)
                    @ deferred_unsubscribe w @ deferred_delete w,
                  snd (poll_loop tp l script)))"
proof -
  obtain evs ex where q: "poll_loop tp l script = (evs, ex)" by (cases "poll_loop tp l script")
  with assms show ?thesis
    by (cases ex) (simp_all add: Start_def)
qed

text \<open>
  C3. Every run of \<open>Start\<close>, whatever is delivered, sends at most one notice. When a notice
  is sent, nothing was sent before it, the only events after it are those of the two
  deferred functions (no further item is acknowledged or decoded, no further poll), and
  \<open>Start\<close> returns \<open>nil\<close>.
\<close>

theorem Start_sends_at_most_one_notice:
  "length (filter is_send (fst (Start tp l w script))) \<le> 1
   \<and> (\<forall>pre n post. fst (Start tp l w script) = pre @ Send n # post \<longrightarrow>
          filter is_send pre = []
        \<and> post = deferred_unsubscribe w @ deferred_delete w
        \<and> snd (Start tp l w script) = Return None)"
proof (cases "create_result w = None \<and> subscribe_result w = None")
  case False
  then have "filter is_send (fst (Start tp l w script)) = []"
    by (auto simp: Start_def deferred_delete_no_send creating_def subscribing_def
             split: option.split)
  moreover have "filter is_send (pre @ Send n # post) \<noteq> []" for pre n post by simp
  ultimately show ?thesis by (metis list.size(3) zero_le)
next
  case True
  then have S: "Start tp l w script =
           (if snd (poll_loop tp l script) = Polling
            then (creating @ subscribing @ fst (poll_loop tp l script), Polling)
            else (creating @ subscribing @ fst (poll_loop tp l script)
                    @ deferred_unsubscribe w @ deferred_delete w,
                  snd (poll_loop tp l script)))"
    using Start_running by blast
  note su = setup_no_send
  from poll_loop_sends [of tp l script] show ?thesis
  proof
    assume "filter is_send (fst (poll_loop tp l script)) = []"
    with S su deferred_no_send [of w]
    have e: "filter is_send (fst (Start tp l w script)) = []" by simp
    moreover have "filter is_send (pre @ Send n # post) \<noteq> []" for pre n post by simp
    ultimately show ?thesis by (metis list.size(3) zero_le)
  next
    assume "snd (poll_loop tp l script) = Return None \<and>
      (\<exists>pre n. fst (poll_loop tp l script) = pre @ [Send n] \<and> filter is_send pre = [])"
    then obtain p m where ex: "snd (poll_loop tp l script) = Return None"
      and tr: "fst (poll_loop tp l script) = p @ [Send m]" and p: "filter is_send p = []"
      by blast
    from S ex tr have T: "fst (Start tp l w script) =
        (creating @ subscribing @ p) @ Send m # (deferred_unsubscribe w @ deferred_delete w)"
      and X: "snd (Start tp l w script) = Return None" by simp_all
    have A: "filter is_send (creating @ subscribing @ p) = []" using su p by simp
    have one: "length (filter is_send (fst (Start tp l w script))) \<le> 1"
      unfolding T using A deferred_no_send [of w] by simp
    have "filter is_send pre = [] \<and> post = deferred_unsubscribe w @ deferred_delete w"
      if "fst (Start tp l w script) = pre @ Send n # post" for pre n post
      using single_send_split [OF A deferred_no_send [of w], of m pre n post] that T A by simp
    with one X show ?thesis by blast
  qed
qed


text \<open>A batch of an undecodable item and two matching ones, and a second batch: the
  notice is sent for the first match and nothing is touched after it.\<close>

theorem Start_single_notice_witness:
  "fst (Start no_time (NewAutoscalingListener ''i-1'' 10000000000) all_well
          [Poll [delivered ''{}'', delivered scenario_item, delivered scenario_item] None,
           Poll [delivered scenario_item] None])
     = (creating @ subscribing
          @ [Log Debug ''Polling sqs for messages'', QueueGetMessages,
             QueueDeleteMessage ''receipt'', Log Debug ''Received an SQS message'',
             Log Error ''Failed to unmarshal autoscaling message'',
             QueueDeleteMessage ''receipt'', Log Debug ''Received an SQS message''])
       @ Send (notice_of (NewAutoscalingListener ''i-1'' 10000000000) decoded_scenario)
       # [Log Debug ''Deleting sns subscription'', QueueUnsubscribe,
          Log Debug ''Deleting sqs queue'', QueueDelete]
   \<and> [Log Debug ''Deleting sns subscription'', QueueUnsubscribe,
       Log Debug ''Deleting sqs queue'', QueueDelete]
       = deferred_unsubscribe all_well @ deferred_delete all_well
   \<and> snd (Start no_time (NewAutoscalingListener ''i-1'' 10000000000) all_well
          [Poll [delivered ''{}'', delivered scenario_item, delivered scenario_item] None,
           Poll [delivered scenario_item] None])
     = Return None"
proof -
  have h: "fst (Start no_time (NewAutoscalingListener ''i-1'' 10000000000) all_well
          [Poll [delivered ''{}'', delivered scenario_item, delivered scenario_item] None,
           Poll [delivered scenario_item] None])
     = (creating @ subscribing
          @ [Log Debug ''Polling sqs for messages'', QueueGetMessages,
             QueueDeleteMessage ''receipt'', Log Debug ''Received an SQS message'',
             Log Error ''Failed to unmarshal autoscaling message'',
             QueueDeleteMessage ''receipt'', Log Debug ''Received an SQS message''])
       @ Send (notice_of (NewAutoscalingListener ''i-1'' 10000000000) decoded_scenario)
       # [Log Debug ''Deleting sns subscription'', QueueUnsubscribe,
          Log Debug ''Deleting sqs queue'', QueueDelete]"
    by (simp add: Start_def all_well_def scenario_accepted empty_object_skipped
          deferred_unsubscribe_def deferred_delete_def)
  from Start_sends_at_most_one_notice [of no_time "NewAutoscalingListener ''i-1'' 10000000000" all_well
          "[Poll [delivered ''{}'', delivered scenario_item, delivered scenario_item] None,
           Poll [delivered scenario_item] None]"] h
  show ?thesis by blast
qed

text \<open>
  C2. For a delivered item whose body decodes to an envelope and whose \<open>Message\<close> decodes to
  a message, the loop body sends a notice if and only if the message's instance ID is the
  listener's and its transition is \<open>autoscaling:EC2_INSTANCE_TERMINATING\<close>. When both hold
  it sends exactly one notice, which carries that message, and returns; when either fails
  it sends nothing, logs nothing at error level and goes on to the next item.
\<close>

theorem notice_iff_instance_and_transition_match:
  assumes "fst d = Some m" and "Body m = Some body"
    and "json_Unmarshal_Envelope tp body = Inr env"
    and "json_Unmarshal_Message tp (Message env) = Inr msg"
  shows "((\<exists>n. Send n \<in> set (fst (process_item tp l d))) \<longleftrightarrow>
            InstanceID msg = instanceID l
          \<and> Transition msg = ''autoscaling:EC2_INSTANCE_TERMINATING'')
       \<and> (InstanceID msg = instanceID l
            \<and> Transition msg = ''autoscaling:EC2_INSTANCE_TERMINATING'' \<longrightarrow>
          filter is_send (fst (process_item tp l d)) = [Send (notice_of l msg)]
          \<and> message (notice_of l msg) = msg
          \<and> snd (process_item tp l d) = ReturnNil)
       \<and> (InstanceID msg \<noteq> instanceID l
            \<or> Transition msg \<noteq> ''autoscaling:EC2_INSTANCE_TERMINATING'' \<longrightarrow>
          filter is_send (fst (process_item tp l d)) = []
          \<and> snd (process_item tp l d) = Continue
          \<and> (\<forall>s. Log Error s \<notin> set (fst (process_item tp l d))))"
proof -
  from assms(1) have d: "d = (Some m, snd d)" by (cases d) simp
  show ?thesis
    by (subst (1 2 3 4 5 6) d)
       (simp add: process_item_decoded [OF assms(2-4)] notice_of_def split: option.split)
qed

text \<open>The scenario's item before a listener for \<open>i-1\<close> and before one for \<open>i-2\<close>.\<close>

theorem notice_iff_match_witness:
  "fst (delivered scenario_item) = Some \<lparr>ReceiptHandle = Some ''receipt'', Body = Some scenario_item\<rparr>
   \<and> json_Unmarshal_Message no_time scenario_message = Inr decoded_scenario
   \<and> InstanceID decoded_scenario = instanceID (NewAutoscalingListener ''i-1'' 10000000000)
   \<and> InstanceID decoded_scenario \<noteq> instanceID (NewAutoscalingListener ''i-2'' 10000000000)
   \<and> filter is_send (fst (process_item no_time (NewAutoscalingListener ''i-1'' 10000000000)
                            (delivered scenario_item)))
       = [Send (notice_of (NewAutoscalingListener ''i-1'' 10000000000) decoded_scenario)]
   \<and> filter is_send (fst (process_item no_time (NewAutoscalingListener ''i-2'' 10000000000)
                            (delivered scenario_item))) = []
   \<and> snd (process_item no_time (NewAutoscalingListener ''i-2'' 10000000000)
             (delivered scenario_item)) = Continue"
proof -
  have d: "fst (delivered scenario_item)
             = Some \<lparr>ReceiptHandle = Some ''receipt'', Body = Some scenario_item\<rparr>"
    by (simp add: delivered_def)
  have b: "Body \<lparr>ReceiptHandle = Some ''receipt'', Body = Some scenario_item\<rparr> = Some scenario_item"
    by simp
  have m: "json_Unmarshal_Message no_time
             (Message \<lparr>Type = ''Notification'', Subject = ''x'', Envelope.Time = None,
                       Message = scenario_message\<rparr>) = Inr decoded_scenario"
    by (simp add: scenario_message_decodes)
  have i: "InstanceID decoded_scenario = instanceID (NewAutoscalingListener ''i-1'' 10000000000)"
    "InstanceID decoded_scenario \<noteq> instanceID (NewAutoscalingListener ''i-2'' 10000000000)"
    "Transition decoded_scenario = ''autoscaling:EC2_INSTANCE_TERMINATING''"
    by (simp_all add: decoded_scenario_def NewAutoscalingListener_def)
  from notice_iff_instance_and_transition_match [OF d b scenario_item_decodes m, of "NewAutoscalingListener ''i-1'' 10000000000"]
       notice_iff_instance_and_transition_match [OF d b scenario_item_decodes m, of "NewAutoscalingListener ''i-2'' 10000000000"]
       d i scenario_message_decodes [of no_time]
  show ?thesis by blast
qed

lemma process_item_loop_events:
  "\<forall>x \<in> set (fst (process_item tp l d)). loop_event x"
  by (auto simp: process_item_def Let_def split: option.split sum.split)

lemma range_messages_loop_events:
  "\<forall>x \<in> set (fst (range_messages tp l ds)). loop_event x"
proof (induction ds)
  case Nil
  then show ?case by simp
next
  case (Cons d ds)
  obtain evs fl where p: "process_item tp l d = (evs, fl)" by (cases "process_item tp l d")
  obtain evs' fl' where r: "range_messages tp l ds = (evs', fl')" by (cases "range_messages tp l ds")
  from process_item_loop_events [of tp l d] p have "\<forall>x \<in> set evs. loop_event x" by simp
  with Cons.IH p r show ?case by (cases fl) auto
qed

lemma poll_loop_loop_events:
  "\<forall>x \<in> set (fst (poll_loop tp l script)). loop_event x"
proof (induction script)
  case Nil
  then show ?case by simp
next
  case (Cons it script)
  show ?case
  proof (cases it)
    case CtxDone
    then show ?thesis by simp
  next
    case (Poll batch err)
    obtain evs fl where r: "range_messages tp l batch = (evs, fl)" by (cases "range_messages tp l batch")
    obtain evs' ex where q: "poll_loop tp l script = (evs', ex)" by (cases "poll_loop tp l script")
    from range_messages_loop_events [of tp l batch] r have "\<forall>x \<in> set evs. loop_event x" by simp
    with Cons.IH Poll r q show ?thesis by (cases fl) (auto split: option.split)
  qed
qed

lemma loop_events_no_teardown:
  "\<forall>x \<in> set evs. loop_event x \<Longrightarrow> filter is_teardown evs = []"
proof (induction evs)
  case Nil
  then show ?case by simp
next
  case (Cons x evs)
  then show ?case by (cases x) auto
qed

lemma process_item_nil:
  "snd (process_item tp l d) = NilDereference \<Longrightarrow> nil_delivery d"
  by (auto simp: process_item_def nil_delivery_def Let_def split: option.splits sum.splits if_splits)

lemma range_messages_nil:
  "snd (range_messages tp l ds) = NilDereference \<Longrightarrow> \<exists>d \<in> set ds. nil_delivery d"
proof (induction ds)
  case Nil
  then show ?case by simp
next
  case (Cons d ds)
  obtain evs fl where p: "process_item tp l d = (evs, fl)" by (cases "process_item tp l d")
  obtain evs' fl' where r: "range_messages tp l ds = (evs', fl')" by (cases "range_messages tp l ds")
  from Cons p r process_item_nil [of tp l d] show ?case by (cases fl) auto
qed

lemma poll_loop_panic:
  "snd (poll_loop tp l script) = Panic p \<Longrightarrow>
     \<exists>batch err. Poll batch err \<in> set script \<and> (\<exists>d \<in> set batch. nil_delivery d)"
proof (induction script)
  case Nil
  then show ?case by simp
next
  case (Cons it script)
  show ?case
  proof (cases it)
    case CtxDone
    with Cons.prems show ?thesis by simp
  next
    case (Poll batch err)
    obtain evs fl where r: "range_messages tp l batch = (evs, fl)" by (cases "range_messages tp l batch")
    obtain evs' ex where q: "poll_loop tp l script = (evs', ex)" by (cases "poll_loop tp l script")
    show ?thesis
    proof (cases fl)
      case Continue
      with Cons Poll r q show ?thesis by auto
    next
      case ReturnNil
      with Cons.prems Poll r show ?thesis by simp
    next
      case NilDereference
      with range_messages_nil [of tp l batch] r Poll show ?thesis by auto
    qed
  qed
qed

lemma poll_loop_no_error:
  "snd (poll_loop tp l script) \<noteq> Return (Some e)"
  using poll_loop_exit [of tp l script] by auto

text \<open>
  C4. \<open>Start\<close> returns the error \<open>e\<close> if and only if creating the queue fails with \<open>e\<close>, or
  creating succeeds and subscribing fails with \<open>e\<close>. On such a failure it returns at once:
  after a failed creation nothing else happens, after a failed subscription only the
  deferred deletion of the queue, and there is no poll. When both succeed, \<open>Start\<close> returns
  \<open>nil\<close> or is still polling, whatever the polls, acknowledgements, decodings and the
  tear-down answer; the one other way out is the panic of a nil dereference, which needs a
  nil pointer among the delivered items.
\<close>

theorem Start_error_iff_setup_fails:
  "(snd (Start tp l w script) = Return (Some e) \<longleftrightarrow>
      create_result w = Some e \<or> (create_result w = None \<and> subscribe_result w = Some e))
   \<and> (create_result w = Some e \<longrightarrow> Start tp l w script = (creating, Return (Some e)))
   \<and> (create_result w = None \<and> subscribe_result w = Some e \<longrightarrow>
        Start tp l w script = (creating @ subscribing @ deferred_delete w, Return (Some e)))
   \<and> (create_result w \<noteq> None \<or> subscribe_result w \<noteq> None \<longrightarrow>
        QueueGetMessages \<notin> set (fst (Start tp l w script)))
   \<and> (create_result w = None \<and> subscribe_result w = None \<longrightarrow>
        snd (Start tp l w script) = Return None
        \<or> snd (Start tp l w script) = Polling
        \<or> (snd (Start tp l w script) = Panic ''invalid memory address or nil pointer dereference''
            \<and> (\<exists>batch err. Poll batch err \<in> set script \<and> (\<exists>d \<in> set batch. nil_delivery d))))"
proof (cases "create_result w")
  case (Some c)
  then show ?thesis by (auto simp: Start_def creating_def)
next
  case None
  note cr = None
  show ?thesis
  proof (cases "subscribe_result w")
    case (Some c)
    with cr show ?thesis
      by (auto simp: Start_def creating_def subscribing_def deferred_delete_def split: option.split)
  next
    case None
    from Start_running [OF cr None, of tp l script]
    have s: "snd (Start tp l w script) = snd (poll_loop tp l script)" by (simp split: if_splits)
    from poll_loop_exit [of tp l script] poll_loop_panic [of tp l script] cr None s
    show ?thesis by auto
  qed
qed

text \<open>A failed creation, a failed subscription, and a run with a failed poll, an
  undecodable item, a cancellation and a failing tear-down.\<close>

theorem Start_error_witness:
  "Start no_time (NewAutoscalingListener ''i-1'' 10000000000)
     \<lparr>create_result = Some (Err ''AccessDenied''), subscribe_result = None,
      unsubscribe_result = None, delete_result = None\<rparr>
     [Poll [delivered scenario_item] None]
     = (creating, Return (Some (Err ''AccessDenied'')))
   \<and> Start no_time (NewAutoscalingListener ''i-1'' 10000000000)
     \<lparr>create_result = None, subscribe_result = Some (Err ''NotFound''),
      unsubscribe_result = None, delete_result = None\<rparr>
     [Poll [delivered scenario_item] None]
     = (creating @ subscribing
          @ deferred_delete \<lparr>create_result = None, subscribe_result = Some (Err ''NotFound''),
                             unsubscribe_result = None, delete_result = None\<rparr>,
        Return (Some (Err ''NotFound'')))
   \<and> snd (Start no_time (NewAutoscalingListener ''i-1'' 10000000000)
           \<lparr>create_result = None, subscribe_result = None,
            unsubscribe_result = Some (Err ''Throttled''), delete_result = Some (Err ''Throttled'')\<rparr>
           [Poll [] (Some (Err ''timeout'')), Poll [delivered ''{}''] None, CtxDone])
     = Return None"
proof -
  have n: "snd (Start no_time (NewAutoscalingListener ''i-1'' 10000000000)
           \<lparr>create_result = None, subscribe_result = None,
            unsubscribe_result = Some (Err ''Throttled''), delete_result = Some (Err ''Throttled'')\<rparr>
           [Poll [] (Some (Err ''timeout'')), Poll [delivered ''{}''] None, CtxDone])
     \<noteq> Polling"
    "snd (Start no_time (NewAutoscalingListener ''i-1'' 10000000000)
           \<lparr>create_result = None, subscribe_result = None,
            unsubscribe_result = Some (Err ''Throttled''), delete_result = Some (Err ''Throttled'')\<rparr>
           [Poll [] (Some (Err ''timeout'')), Poll [delivered ''{}''] None, CtxDone])
     \<noteq> Panic ''invalid memory address or nil pointer dereference''"
    by (simp_all add: Start_def empty_object_skipped)
  from Start_error_iff_setup_fails [of no_time "NewAutoscalingListener ''i-1'' 10000000000"
             "\<lparr>create_result = Some (Err ''AccessDenied''), subscribe_result = None,
               unsubscribe_result = None, delete_result = None\<rparr>"
             "[Poll [delivered scenario_item] None]" "Err ''AccessDenied''"]
       Start_error_iff_setup_fails [of no_time "NewAutoscalingListener ''i-1'' 10000000000"
             "\<lparr>create_result = None, subscribe_result = Some (Err ''NotFound''),
               unsubscribe_result = None, delete_result = None\<rparr>"
             "[Poll [delivered scenario_item] None]" "Err ''NotFound''"]
       Start_error_iff_setup_fails [of no_time "NewAutoscalingListener ''i-1'' 10000000000"
             "\<lparr>create_result = None, subscribe_result = None,
               unsubscribe_result = Some (Err ''Throttled''), delete_result = Some (Err ''Throttled'')\<rparr>"
             "[Poll [] (Some (Err ''timeout'')), Poll [delivered ''{}''] None, CtxDone]"] n
  show ?thesis by simp
qed

lemma deferred_teardown:
  "filter is_teardown (deferred_unsubscribe w @ deferred_delete w) = [QueueUnsubscribe, QueueDelete]"
  by (simp add: deferred_unsubscribe_def deferred_delete_def split: option.split)

text \<open>
  C6. When creating and subscribing succeeded and \<open>Start\<close> is left (by a return or a
  panic), the run ends with the unsubscription followed by the deletion of the queue, and
  these are the only tear-down calls of the run: each is made exactly once, in that order.
  A failure of either is logged at error level, and what \<open>Start\<close> returns does not depend
  on the answers of the two calls.
\<close>

theorem teardown_once_on_every_exit:
  assumes "create_result w = None" and "subscribe_result w = None"
    and "snd (Start tp l w script) \<noteq> Polling"
  shows "fst (Start tp l w script) =
           creating @ subscribing @ fst (poll_loop tp l script)
           @ deferred_unsubscribe w @ deferred_delete w
       \<and> filter is_teardown (fst (Start tp l w script)) = [QueueUnsubscribe, QueueDelete]
       \<and> (unsubscribe_result w \<noteq> None \<longrightarrow>
            Log Error ''Failed to unsubscribe from sns topic'' \<in> set (fst (Start tp l w script)))
       \<and> (delete_result w \<noteq> None \<longrightarrow>
            Log Error ''Failed to delete queue'' \<in> set (fst (Start tp l w script)))
       \<and> snd (Start tp l (w\<lparr>unsubscribe_result := u, delete_result := d\<rparr>) script)
           = snd (Start tp l w script)"
proof -
  from Start_running [OF assms(1,2), of tp l script] assms(3)
  have np: "snd (poll_loop tp l script) \<noteq> Polling"
    and tr: "fst (Start tp l w script) =
           creating @ subscribing @ fst (poll_loop tp l script)
           @ deferred_unsubscribe w @ deferred_delete w"
    and ex: "snd (Start tp l w script) = snd (poll_loop tp l script)"
    by (auto split: if_splits)
  have "filter is_teardown (fst (poll_loop tp l script)) = []"
    using poll_loop_loop_events loop_events_no_teardown by blast
  with tr deferred_teardown [of w]
  have td: "filter is_teardown (fst (Start tp l w script)) = [QueueUnsubscribe, QueueDelete]"
    by (simp add: creating_def subscribing_def)
  have lu: "unsubscribe_result w \<noteq> None \<longrightarrow>
            Log Error ''Failed to unsubscribe from sns topic'' \<in> set (fst (Start tp l w script))"
    unfolding tr by (auto simp: deferred_unsubscribe_def)
  have ld: "delete_result w \<noteq> None \<longrightarrow>
            Log Error ''Failed to delete queue'' \<in> set (fst (Start tp l w script))"
    unfolding tr by (auto simp: deferred_delete_def)
  have "create_result (w\<lparr>unsubscribe_result := u, delete_result := d\<rparr>) = None"
    "subscribe_result (w\<lparr>unsubscribe_result := u, delete_result := d\<rparr>) = None"
    using assms by simp_all
  from Start_running [OF this, of tp l script]
  have "snd (Start tp l (w\<lparr>unsubscribe_result := u, delete_result := d\<rparr>) script)
          = snd (poll_loop tp l script)"
    by (simp split: if_splits)
  with tr td lu ld ex show ?thesis by simp
qed

text \<open>A failed poll, then cancellation, with both tear-down calls failing.\<close>

theorem teardown_witness:
  "fst (Start no_time (NewAutoscalingListener ''i-1'' 10000000000)
         \<lparr>create_result = None, subscribe_result = None,
          unsubscribe_result = Some (Err ''Throttled''), delete_result = Some (Err ''Throttled'')\<rparr>
         [Poll [] (Some (Err ''timeout'')), CtxDone])
     = [Log Debug ''Creating sqs queue'', QueueCreate,
        Log Debug ''Subscribing queue to sns topic'', QueueSubscribe,
        Log Debug ''Polling sqs for messages'', QueueGetMessages,
        Log Warn ''Failed to get messages from SQS'',
        Log Debug ''Deleting sns subscription'', QueueUnsubscribe,
        Log Error ''Failed to unsubscribe from sns topic'',
        Log Debug ''Deleting sqs queue'', QueueDelete,
        Log Error ''Failed to delete queue'']
   \<and> snd (Start no_time (NewAutoscalingListener ''i-1'' 10000000000)
         \<lparr>create_result = None, subscribe_result = None,
          unsubscribe_result = Some (Err ''Throttled''), delete_result = Some (Err ''Throttled'')\<rparr>
         [Poll [] (Some (Err ''timeout'')), CtxDone]) = Return None
   \<and> snd (Start no_time (NewAutoscalingListener ''i-1'' 10000000000) all_well
         [Poll [] (Some (Err ''timeout'')), CtxDone]) = Return None"
proof -
  let ?w = "\<lparr>create_result = None, subscribe_result = None,
          unsubscribe_result = Some (Err ''Throttled''), delete_result = Some (Err ''Throttled'')\<rparr>"
  let ?s = "[Poll [] (Some (Err ''timeout'')), CtxDone]"
  have c: "create_result ?w = None" and s: "subscribe_result ?w = None" by simp_all
  have x: "snd (Start no_time (NewAutoscalingListener ''i-1'' 10000000000) ?w ?s) = Return None"
    by (simp add: Start_def)
  then have p: "snd (Start no_time (NewAutoscalingListener ''i-1'' 10000000000) ?w ?s) \<noteq> Polling"
    by simp
  have a: "?w\<lparr>unsubscribe_result := None, delete_result := None\<rparr> = all_well"
    by (simp add: all_well_def)
  from teardown_once_on_every_exit [OF c s p, of None None] x a
  show ?thesis
    by (simp add: creating_def subscribing_def deferred_unsubscribe_def deferred_delete_def)
qed

text \<open>
  C7. For a delivered item whose body does not decode as an envelope, or whose \<open>Message\<close>
  does not decode as a message: the first event of the item is its acknowledgement
  (\<open>DeleteMessage\<close>), everything after it is a log line, no notice is sent, the loop goes on
  with the next item of the batch, and \<open>Start\<close> ends as it would without the item.
\<close>

theorem undecodable_item_acknowledged_and_skipped:
  assumes "fst d = Some m" and "Body m = Some body"
    and "(\<exists>e. json_Unmarshal_Envelope tp body = Inl e)
         \<or> (\<exists>env e. json_Unmarshal_Envelope tp body = Inr env
                    \<and> json_Unmarshal_Message tp (Message env) = Inl e)"
  shows "(\<exists>logs. fst (process_item tp l d) =
                   QueueDeleteMessage (aws_StringValue (ReceiptHandle m)) # logs
               \<and> (\<forall>x \<in> set logs. \<exists>lv s. x = Log lv s))
       \<and> filter is_send (fst (process_item tp l d)) = []
       \<and> snd (process_item tp l d) = Continue
       \<and> range_messages tp l (d # ds) =
           (fst (process_item tp l d) @ fst (range_messages tp l ds),
            snd (range_messages tp l ds))
       \<and> snd (Start tp l w (Poll (d # ds) err # script))
           = snd (Start tp l w (Poll ds err # script))"
proof -
  from assms(1) have d: "d = (Some m, snd d)" by (cases d) simp
  from process_item_undecodable [OF assms(2,3), of l "snd d"] d
  obtain logs where p: "process_item tp l d =
      (QueueDeleteMessage (aws_StringValue (ReceiptHandle m)) # logs, Continue)"
    and lg: "\<forall>x \<in> set logs. \<exists>lv s. x = Log lv s"
    by auto
  from lg have ns: "filter is_send logs = []" by (induction logs) auto
  obtain evs' fl' where r: "range_messages tp l ds = (evs', fl')" by (cases "range_messages tp l ds")
  have rg: "range_messages tp l (d # ds) =
           (fst (process_item tp l d) @ fst (range_messages tp l ds),
            snd (range_messages tp l ds))"
    using p r by simp
  obtain evs'' ex where q: "poll_loop tp l script = (evs'', ex)" by (cases "poll_loop tp l script")
  have pl: "snd (poll_loop tp l (Poll (d # ds) err # script))
              = snd (poll_loop tp l (Poll ds err # script))"
    using rg r q by (cases fl') (simp_all add: p)
  have "snd (Start tp l w (Poll (d # ds) err # script))
           = snd (Start tp l w (Poll ds err # script))"
  proof (cases "create_result w = None \<and> subscribe_result w = None")
    case True
    then show ?thesis
      using Start_running [of w tp l "Poll (d # ds) err # script"]
            Start_running [of w tp l "Poll ds err # script"] pl
      by (simp split: if_splits)
  next
    case False
    then show ?thesis by (auto simp: Start_def split: option.split)
  qed
  with p lg ns rg show ?thesis by simp
qed

text \<open>A body that is not JSON and a body whose \<open>Message\<close> is empty, followed in their
  batch by the scenario's item.\<close>

theorem undecodable_item_witness:
  "json_Unmarshal_Envelope no_time ''hello'' = Inl SyntaxError
   \<and> process_item no_time (NewAutoscalingListener ''i-1'' 10000000000) (delivered ''hello'')
       = ([QueueDeleteMessage ''receipt'', Log Error ''Failed to unmarshal envelope''], Continue)
   \<and> json_Unmarshal_Envelope no_time ''{}'' = Inr zero_Envelope
   \<and> json_Unmarshal_Message no_time (Message zero_Envelope) = Inl SyntaxError
   \<and> process_item no_time (NewAutoscalingListener ''i-1'' 10000000000) (delivered ''{}'')
       = ([QueueDeleteMessage ''receipt'', Log Debug ''Received an SQS message'',
           Log Error ''Failed to unmarshal autoscaling message''], Continue)
   \<and> range_messages no_time (NewAutoscalingListener ''i-1'' 10000000000)
        [delivered ''hello'', delivered ''{}'', delivered scenario_item]
       = ([QueueDeleteMessage ''receipt'', Log Error ''Failed to unmarshal envelope'',
           QueueDeleteMessage ''receipt'', Log Debug ''Received an SQS message'',
           Log Error ''Failed to unmarshal autoscaling message'',
           QueueDeleteMessage ''receipt'', Log Debug ''Received an SQS message'',
           Send (notice_of (NewAutoscalingListener ''i-1'' 10000000000) decoded_scenario)],
          ReturnNil)"
proof -
  let ?l = "NewAutoscalingListener ''i-1'' 10000000000"
  have d: "fst (delivered ''hello'') = Some \<lparr>ReceiptHandle = Some ''receipt'', Body = Some ''hello''\<rparr>"
    "fst (delivered ''{}'') = Some \<lparr>ReceiptHandle = Some ''receipt'', Body = Some ''{}''\<rparr>"
    by (simp_all add: delivered_def)
  have b: "Body \<lparr>ReceiptHandle = Some ''receipt'', Body = Some ''hello''\<rparr> = Some ''hello''"
    "Body \<lparr>ReceiptHandle = Some ''receipt'', Body = Some ''{}''\<rparr> = Some ''{}''"
    by simp_all
  have z: "json_Unmarshal_Message no_time (Message zero_Envelope) = Inl SyntaxError"
    by (simp add: zero_Envelope_def empty_text_fails)
  have f: "(\<exists>e. json_Unmarshal_Envelope no_time ''hello'' = Inl e)
         \<or> (\<exists>env e. json_Unmarshal_Envelope no_time ''hello'' = Inr env
                    \<and> json_Unmarshal_Message no_time (Message env) = Inl e)"
    by (simp add: plain_text_fails)
  have g: "(\<exists>e. json_Unmarshal_Envelope no_time ''{}'' = Inl e)
         \<or> (\<exists>env e. json_Unmarshal_Envelope no_time ''{}'' = Inr env
                    \<and> json_Unmarshal_Message no_time (Message env) = Inl e)"
    by (simp add: empty_object_decodes z)
  have p: "process_item no_time ?l (delivered ''hello'')
       = ([QueueDeleteMessage ''receipt'', Log Error ''Failed to unmarshal envelope''], Continue)"
    by (simp add: process_item_def delivered_def aws_StringValue_def plain_text_fails)
  have r: "range_messages no_time ?l [delivered scenario_item]
       = ([QueueDeleteMessage ''receipt'', Log Debug ''Received an SQS message'',
           Send (notice_of ?l decoded_scenario)], ReturnNil)"
    by (simp add: scenario_accepted)
  from undecodable_item_acknowledged_and_skipped
         [OF d(2) b(2) g, of ?l "[delivered scenario_item]" all_well None "[]"]
       r empty_object_skipped [of no_time ?l]
  have r2: "range_messages no_time ?l [delivered ''{}'', delivered scenario_item]
       = ([QueueDeleteMessage ''receipt'', Log Debug ''Received an SQS message'',
           Log Error ''Failed to unmarshal autoscaling message'',
           QueueDeleteMessage ''receipt'', Log Debug ''Received an SQS message'',
           Send (notice_of ?l decoded_scenario)], ReturnNil)"
    by simp
  from undecodable_item_acknowledged_and_skipped
         [OF d(1) b(1) f, of ?l "[delivered ''{}'', delivered scenario_item]" all_well None "[]"]
       p r2 plain_text_fails [of no_time] empty_object_decodes [of no_time] z
       empty_object_skipped [of no_time ?l]
  show ?thesis by simp
qed

lemma scenario_notice:
  "notice_of (NewAutoscalingListener ''i-1'' hb) decoded_scenario =
     \<lparr>noticeType = ''autoscaling'',
      message = \<lparr>Message.Time = None, GroupName = ''g'', InstanceID = ''i-1'',
                 ActionToken = ''t'',
                 Transition = ''autoscaling:EC2_INSTANCE_TERMINATING'',
                 HookName = ''h''\<rparr>,
      heartbeatInterval = hb\<rparr>"
  by (simp add: notice_of_def decoded_scenario_def Type_of_def NewAutoscalingListener_def)

text \<open>
  C8. The scenario. A listener for instance \<open>i-1\<close> that is delivered the raw item sends one
  notice, whose message has instance ID \<open>i-1\<close> and action token \<open>t\<close>, and returns \<open>nil\<close>. A
  listener for instance \<open>i-2\<close> that is delivered the same item sends nothing and goes on
  with whatever the loop does next; with nothing more to come it is still polling.
\<close>

theorem scenario_notice_for_matching_instance_only:
  "Start tp (NewAutoscalingListener ''i-1'' hb) all_well [Poll [delivered scenario_item] None]
     = ([Log Debug ''Creating sqs queue'', QueueCreate,
         Log Debug ''Subscribing queue to sns topic'', QueueSubscribe,
         Log Debug ''Polling sqs for messages'', QueueGetMessages,
         QueueDeleteMessage ''receipt'', Log Debug ''Received an SQS message'',
         Send \<lparr>noticeType = ''autoscaling'',
               message = \<lparr>Message.Time = None, GroupName = ''g'', InstanceID = ''i-1'',
                          ActionToken = ''t'',
                          Transition = ''autoscaling:EC2_INSTANCE_TERMINATING'',
                          HookName = ''h''\<rparr>,
               heartbeatInterval = hb\<rparr>,
         Log Debug ''Deleting sns subscription'', QueueUnsubscribe,
         Log Debug ''Deleting sqs queue'', QueueDelete],
        Return None)
   \<and> poll_loop tp (NewAutoscalingListener ''i-2'' hb) (Poll [delivered scenario_item] None # script)
     = ([Log Debug ''Polling sqs for messages'', QueueGetMessages,
         QueueDeleteMessage ''receipt'', Log Debug ''Received an SQS message'',
         Log Debug ''Skipping autoscaling event, doesn't match instance id'']
        @ fst (poll_loop tp (NewAutoscalingListener ''i-2'' hb) script),
        snd (poll_loop tp (NewAutoscalingListener ''i-2'' hb) script))
   \<and> Start tp (NewAutoscalingListener ''i-2'' hb) all_well [Poll [delivered scenario_item] None]
     = ([Log Debug ''Creating sqs queue'', QueueCreate,
         Log Debug ''Subscribing queue to sns topic'', QueueSubscribe,
         Log Debug ''Polling sqs for messages'', QueueGetMessages,
         QueueDeleteMessage ''receipt'', Log Debug ''Received an SQS message'',
         Log Debug ''Skipping autoscaling event, doesn't match instance id''],
        Polling)"
proof -
  have a: "Start tp (NewAutoscalingListener ''i-1'' hb) all_well [Poll [delivered scenario_item] None]
     = ([Log Debug ''Creating sqs queue'', QueueCreate,
         Log Debug ''Subscribing queue to sns topic'', QueueSubscribe,
         Log Debug ''Polling sqs for messages'', QueueGetMessages,
         QueueDeleteMessage ''receipt'', Log Debug ''Received an SQS message'',
         Send \<lparr>noticeType = ''autoscaling'',
               message = \<lparr>Message.Time = None, GroupName = ''g'', InstanceID = ''i-1'',
                          ActionToken = ''t'',
                          Transition = ''autoscaling:EC2_INSTANCE_TERMINATING'',
                          HookName = ''h''\<rparr>,
               heartbeatInterval = hb\<rparr>,
         Log Debug ''Deleting sns subscription'', QueueUnsubscribe,
         Log Debug ''Deleting sqs queue'', QueueDelete],
        Return None)"
    by (simp add: Start_def all_well_def scenario_accepted scenario_notice creating_def
          subscribing_def deferred_unsubscribe_def deferred_delete_def)
  obtain evs ex where q: "poll_loop tp (NewAutoscalingListener ''i-2'' hb) script = (evs, ex)"
    by (cases "poll_loop tp (NewAutoscalingListener ''i-2'' hb) script")
  have b: "poll_loop tp (NewAutoscalingListener ''i-2'' hb) (Poll [delivered scenario_item] None # script)
     = ([Log Debug ''Polling sqs for messages'', QueueGetMessages,
         QueueDeleteMessage ''receipt'', Log Debug ''Received an SQS message'',
         Log Debug ''Skipping autoscaling event, doesn't match instance id'']
        @ fst (poll_loop tp (NewAutoscalingListener ''i-2'' hb) script),
        snd (poll_loop tp (NewAutoscalingListener ''i-2'' hb) script))"
    by (simp add: scenario_skipped q)
  have c: "Start tp (NewAutoscalingListener ''i-2'' hb) all_well [Poll [delivered scenario_item] None]
     = ([Log Debug ''Creating sqs queue'', QueueCreate,
         Log Debug ''Subscribing queue to sns topic'', QueueSubscribe,
         Log Debug ''Polling sqs for messages'', QueueGetMessages,
         QueueDeleteMessage ''receipt'', Log Debug ''Received an SQS message'',
         Log Debug ''Skipping autoscaling event, doesn't match instance id''],
        Polling)"
    by (simp add: Start_def all_well_def scenario_skipped creating_def subscribing_def)
  from a b c show ?thesis by blast
qed

text \<open>
  An envelope whose \<open>Type\<close> is the number 5 is valid JSON, and its \<open>Message\<close> is the string
  that decodes to the matching message of the scenario. \<open>json.Unmarshal\<close> reports that a
  number does not fit the string field, the item is skipped, and no notice is sent.
\<close>

theorem numeric_type_rejected:
  "json_parse numeric_type_item =
     Some (JObject [(''Type'', JNumber ''5''),
                    (''Message'', JString (backslashed scenario_message))])
   \<and> unquote (backslashed scenario_message) = scenario_message
   \<and> json_Unmarshal_Message no_time scenario_message = Inr decoded_scenario
   \<and> InstanceID decoded_scenario = instanceID (NewAutoscalingListener ''i-1'' 10000000000)
   \<and> Transition decoded_scenario = ''autoscaling:EC2_INSTANCE_TERMINATING''
   \<and> Start no_time (NewAutoscalingListener ''i-1'' 10000000000) all_well
        [Poll [delivered numeric_type_item] None, CtxDone]
     = ([Log Debug ''Creating sqs queue'', QueueCreate,
         Log Debug ''Subscribing queue to sns topic'', QueueSubscribe,
         Log Debug ''Polling sqs for messages'', QueueGetMessages,
         QueueDeleteMessage ''receipt'', Log Error ''Failed to unmarshal envelope'',
         Log Debug ''Deleting sns subscription'', QueueUnsubscribe,
         Log Debug ''Deleting sqs queue'', QueueDelete],
        Return None)"
  by (simp add: numeric_type_item_parses backslashed_unquotes scenario_message_decodes
        Start_def all_well_def process_item_def delivered_def aws_StringValue_def
        numeric_type_item_fails creating_def subscribing_def deferred_unsubscribe_def
        deferred_delete_def decoded_scenario_def NewAutoscalingListener_def)

text \<open>
  C9, as the code has it. For every item whose body decodes as an \<open>Envelope\<close> and whose
  \<open>Message\<close> decodes to a message with the listener's instance ID and the terminating
  transition, the notice is sent: the outcome is written without the \<open>Type\<close>, the \<open>Subject\<close>
  or the \<open>Time\<close> of the envelope, so it is the same whatever they are.
\<close>

theorem notice_whatever_the_envelope_type:
  assumes "Body m = Some body"
    and "json_Unmarshal_Envelope tp body = Inr env"
    and "json_Unmarshal_Message tp (Message env) = Inr msg"
    and "InstanceID msg = instanceID l"
    and "Transition msg = ''autoscaling:EC2_INSTANCE_TERMINATING''"
  shows "process_item tp l (Some m, ack) =
           (QueueDeleteMessage (aws_StringValue (ReceiptHandle m))
            # (case ack of Some e \<Rightarrow> [Log Warn ''Failed to delete message''] | None \<Rightarrow> [])
            @ [Log Debug ''Received an SQS message'', Send (notice_of l msg)],
            ReturnNil)"
  using assms(4,5) by (simp add: process_item_decoded [OF assms(1-3)])

text \<open>The envelope with another \<open>Type\<close>, and the envelope with no \<open>Type\<close>.\<close>

theorem notice_other_type_witness:
  "filter is_send
     (fst (process_item no_time (NewAutoscalingListener ''i-1'' 10000000000)
             (Some \<lparr>ReceiptHandle = Some ''receipt'', Body = Some other_type_item\<rparr>, None)))
     = [Send (notice_of (NewAutoscalingListener ''i-1'' 10000000000) decoded_scenario)]
   \<and> filter is_send
     (fst (process_item no_time (NewAutoscalingListener ''i-1'' 10000000000)
             (Some \<lparr>ReceiptHandle = Some ''receipt'', Body = Some no_type_item\<rparr>, None)))
     = [Send (notice_of (NewAutoscalingListener ''i-1'' 10000000000) decoded_scenario)]
   \<and> json_Unmarshal_Envelope no_time other_type_item =
       Inr \<lparr>Type = ''SubscriptionConfirmation'', Subject = [], Envelope.Time = None,
            Message = scenario_message\<rparr>
   \<and> json_Unmarshal_Envelope no_time no_type_item =
       Inr \<lparr>Type = [], Subject = [], Envelope.Time = None, Message = scenario_message\<rparr>"
proof -
  let ?l = "NewAutoscalingListener ''i-1'' 10000000000"
  have i: "InstanceID decoded_scenario = instanceID ?l"
    "Transition decoded_scenario = ''autoscaling:EC2_INSTANCE_TERMINATING''"
    by (simp_all add: decoded_scenario_def NewAutoscalingListener_def)
  have m: "json_Unmarshal_Message no_time
             (Message \<lparr>Type = ''SubscriptionConfirmation'', Subject = [], Envelope.Time = None,
                       Message = scenario_message\<rparr>) = Inr decoded_scenario"
      "json_Unmarshal_Message no_time
             (Message \<lparr>Type = [], Subject = [], Envelope.Time = None,
                       Message = scenario_message\<rparr>) = Inr decoded_scenario"
    by (simp_all add: scenario_message_decodes)
  have b: "Body \<lparr>ReceiptHandle = Some ''receipt'', Body = Some other_type_item\<rparr> = Some other_type_item"
    "Body \<lparr>ReceiptHandle = Some ''receipt'', Body = Some no_type_item\<rparr> = Some no_type_item"
    by simp_all
  from notice_whatever_the_envelope_type [OF b(1) other_type_item_decodes m(1) i, of None]
       notice_whatever_the_envelope_type [OF b(2) no_type_item_decodes m(2) i, of None]
       other_type_item_decodes [of no_time] no_type_item_decodes [of no_time]
  show ?thesis by simp
qed

text \<open>
  C10. For every item, what the loop body does when the acknowledgement fails is what it
  does when the acknowledgement succeeds, with one more log line (a warning) after the
  \<open>DeleteMessage\<close> call: the same decoding, the same filter, the same notices, the same way
  on.
\<close>

theorem failed_acknowledgement_does_not_skip:
  "process_item tp l (Some m, Some e) =
     (QueueDeleteMessage (aws_StringValue (ReceiptHandle m))
      # Log Warn ''Failed to delete message''
      # tl (fst (process_item tp l (Some m, None))),
      snd (process_item tp l (Some m, None)))
   \<and> fst (process_item tp l (Some m, None)) =
       QueueDeleteMessage (aws_StringValue (ReceiptHandle m))
       # tl (fst (process_item tp l (Some m, None)))
   \<and> filter is_send (fst (process_item tp l (Some m, Some e)))
       = filter is_send (fst (process_item tp l (Some m, None)))"
  by (simp add: process_item_def Let_def split: option.split sum.split)

text \<open>The scenario's item with a failing acknowledgement: the notice is sent.\<close>

theorem failed_acknowledgement_witness:
  "process_item no_time (NewAutoscalingListener ''i-1'' 10000000000)
     (Some \<lparr>ReceiptHandle = Some ''receipt'', Body = Some scenario_item\<rparr>, Some (Err ''ReceiptHandleIsInvalid''))
   = ([QueueDeleteMessage ''receipt'', Log Warn ''Failed to delete message'',
       Log Debug ''Received an SQS message'',
       Send (notice_of (NewAutoscalingListener ''i-1'' 10000000000) decoded_scenario)],
      ReturnNil)"
  using failed_acknowledgement_does_not_skip [of no_time "NewAutoscalingListener ''i-1'' 10000000000"
               "\<lparr>ReceiptHandle = Some ''receipt'', Body = Some scenario_item\<rparr>"
               "Err ''ReceiptHandleIsInvalid''"]
        scenario_accepted [of no_time 10000000000]
  by (simp add: delivered_def aws_StringValue_def)

end
